theory Spec2Isabelle
  imports Complex_Main
begin

section \<open>Synthetic recordings: the toy example generator\<close>

text \<open>
  A shallow embedding of \<^verbatim>\<open>spikeinterface/extractors/toy_example.py\<close>.
  NumPy arrays of floats are lists of reals (exact arithmetic stands for the
  floating-point operations, so \<^verbatim>\<open>nan\<close> and rounding error are outside the
  model), \<^verbatim>\<open>int64\<close> arrays are lists of integers, and every exception the
  Python code can raise is a value of \<open>py_error\<close>. \<open>NanResult\<close> is not an
  exception: it marks the inputs on which NumPy returns \<^verbatim>\<open>inf\<close> or \<^verbatim>\<open>nan\<close>.
\<close>

datatype py_error =
  TypeError | AssertionError | ZeroDivisionError | IndexError | ValueError | NanResult

subsection \<open>\<^verbatim>\<open>enforce_refractory_period\<close>\<close>

text \<open>
  The entries of \<^verbatim>\<open>diffs\<close> are finite differences followed by one
  \<^verbatim>\<open>np.inf\<close>; \<open>xle d r\<close> is \<^verbatim>\<open>d <= r\<close> and \<open>xge d r\<close> is
  \<^verbatim>\<open>d >= r\<close> on such entries.
\<close>

datatype xreal = Fin real | PInf

fun xle :: "xreal \<Rightarrow> real \<Rightarrow> bool" where
  "xle (Fin d) r = (d \<le> r)"
| "xle PInf r = False"

fun xge :: "xreal \<Rightarrow> real \<Rightarrow> bool" where
  "xge (Fin d) r = (r \<le> d)"
| "xge PInf r = True"

text \<open>\<^verbatim>\<open>times0[1:] - times0[:-1]\<close>\<close>

definition adjacent_diffs :: "real list \<Rightarrow> real list" where
  "adjacent_diffs times0 = map2 (-) (tl times0) (butlast times0)"

text \<open>\<^verbatim>\<open>np.where(cond)[0]\<close>: the indices at which a boolean array holds.\<close>

definition where_true :: "bool list \<Rightarrow> nat list" where
  "where_true cond = filter (\<lambda>i. cond ! i) [0..<length cond]"

text \<open>
  Lines 152 to 154: the indices \<^verbatim>\<open>inds0\<close> selected in one pass of the loop.
\<close>

definition refractory_inds :: "real list \<Rightarrow> real \<Rightarrow> nat list" where
  "refractory_inds times0 refr =
     (let diffs = map Fin (adjacent_diffs times0) @ [PInf]
      in where_true (map2 (\<and>) (map (\<lambda>d. xle d refr) (butlast diffs))
                                (map (\<lambda>d. xge d refr) (tl diffs))))"

text \<open>\<^verbatim>\<open>times0[inds0] = -1\<close>\<close>

definition mark_removed :: "real list \<Rightarrow> nat list \<Rightarrow> real list" where
  "mark_removed times0 inds0 = fold (\<lambda>i ts. ts[i := - 1]) inds0 times0"

text \<open>
  Lines 156 and 157: the body of a pass that found \<^verbatim>\<open>inds0\<close> non-empty.
\<close>

definition remove_marked :: "real list \<Rightarrow> nat list \<Rightarrow> real list" where
  "remove_marked times0 inds0 = filter (\<lambda>t. 0 \<le> t) (mark_removed times0 inds0)"

lemma length_mark_removed: "length (mark_removed ts inds) = length ts"
  unfolding mark_removed_def by (induction inds arbitrary: ts) simp_all

lemma nth_mark_removed:
  "i < length ts \<Longrightarrow> mark_removed ts inds ! i = (if i \<in> set inds then - 1 else ts ! i)"
  unfolding mark_removed_def
proof (induction inds arbitrary: ts)
  case Nil
  then show ?case by simp
next
  case (Cons j inds)
  then show ?case by (simp add: nth_list_update)
qed

lemma refractory_inds_iff:
  "i \<in> set (refractory_inds ts refr) \<longleftrightarrow>
     Suc i < length ts \<and> ts ! Suc i - ts ! i \<le> refr \<and>
     (Suc (Suc i) < length ts \<longrightarrow> refr \<le> ts ! Suc (Suc i) - ts ! Suc i)"
proof (cases "Suc i < length ts")
  case False
  then show ?thesis
    by (auto simp: refractory_inds_def where_true_def adjacent_diffs_def Let_def)
next
  case True
  have a: "butlast (map Fin (adjacent_diffs ts) @ [PInf]) ! i = Fin (ts ! Suc i - ts ! i)"
    using True by (simp add: adjacent_diffs_def nth_tl nth_butlast)
  have b: "tl (map Fin (adjacent_diffs ts) @ [PInf]) ! i =
             (if Suc (Suc i) < length ts then Fin (ts ! Suc (Suc i) - ts ! Suc i) else PInf)"
    using True
    by (auto simp: adjacent_diffs_def nth_tl nth_butlast nth_append)
  show ?thesis
    using True a b
    by (auto simp: refractory_inds_def where_true_def Let_def adjacent_diffs_def)
qed

lemma refractory_inds_less: "i \<in> set (refractory_inds ts refr) \<Longrightarrow> i < length ts"
  by (simp add: refractory_inds_iff)

lemma remove_marked_shrinks:
  assumes "inds \<noteq> []" and "\<forall>i\<in>set inds. i < length ts"
  shows "length (remove_marked ts inds) < length ts"
proof -
  obtain i where i: "i \<in> set inds" using assms(1) by (cases inds) auto
  then have il: "i < length ts" using assms(2) by blast
  then have "mark_removed ts inds ! i = - 1" using i by (simp add: nth_mark_removed)
  then have "- 1 \<in> set (mark_removed ts inds)"
    using il by (metis length_mark_removed nth_mem)
  then have "length (filter (\<lambda>t. 0 \<le> t) (mark_removed ts inds)) < length (mark_removed ts inds)"
    by (intro length_filter_less[where x = "- 1"]) simp_all
  then show ?thesis by (simp add: remove_marked_def length_mark_removed)
qed

text \<open>
  The \<^verbatim>\<open>while not done\<close> loop. It terminates because a pass with a non-empty
  \<^verbatim>\<open>inds0\<close> returns a strictly shorter array.
\<close>

function enforce_loop :: "real list \<Rightarrow> real \<Rightarrow> real list" where
  "enforce_loop times0 refr =
     (let inds0 = refractory_inds times0 refr
      in if inds0 \<noteq> [] then enforce_loop (remove_marked times0 inds0) refr
         else times0)"
  by pat_completeness auto
termination
proof (relation "measure (\<lambda>(times0, refr). length times0)")
  show "wf (measure (\<lambda>(times0, refr). length times0))" by simp
next
  fix times0 :: "real list" and refr :: real and inds0
  assume "inds0 = refractory_inds times0 refr" and "inds0 \<noteq> []"
  then show "((remove_marked times0 inds0, refr), (times0, refr))
               \<in> measure (\<lambda>(times0, refr). length times0)"
    by (simp add: remove_marked_shrinks refractory_inds_less)
qed

declare enforce_loop.simps [simp del]

definition enforce_refractory_period :: "real list \<Rightarrow> real \<Rightarrow> real list" where
  "enforce_refractory_period times_in refr =
     (if times_in = [] then times_in else enforce_loop (sort times_in) refr)"

subsection \<open>Python values and NumPy helpers\<close>

text \<open>
  A Python value that may reach the \<^verbatim>\<open>duration\<close> parameter: an integer, a float or a
  list.
\<close>

datatype pyval = PyInt int | PyFloat real | PyList "pyval list"

text \<open>
  Sequencing of computations that may raise: the first exception is the result.
\<close>

definition ebind :: "'e + 'a \<Rightarrow> ('a \<Rightarrow> 'e + 'b) \<Rightarrow> 'e + 'b" where
  "ebind m f = (case m of Inl e \<Rightarrow> Inl e | Inr v \<Rightarrow> f v)"

fun sequence_err :: "('e + 'a) list \<Rightarrow> 'e + 'a list" where
  "sequence_err [] = Inr []"
| "sequence_err (m # ms) = ebind m (\<lambda>x. ebind (sequence_err ms) (\<lambda>xs. Inr (x # xs)))"

text \<open>
  \<^verbatim>\<open>np.int64(x)\<close>, \<^verbatim>\<open>int(x)\<close> and \<^verbatim>\<open>astype('int64')\<close> on a float: truncation
  towards zero. The integers of the model are unbounded; the 64-bit range is not
  reached by sample counts.
\<close>

definition trunc :: "real \<Rightarrow> int" where
  "trunc x = (if 0 \<le> x then \<lfloor>x\<rfloor> else \<lceil>x\<rceil>)"

text \<open>
  \<^verbatim>\<open>duration * sampling_frequency\<close> (line 102) and \<^verbatim>\<open>sampling_frequency * duration\<close>
  (line 293), where \<^verbatim>\<open>sampling_frequency\<close> is a float: Python multiplies a number
  and raises \<^verbatim>\<open>TypeError\<close> on a list.
\<close>

definition py_times_float :: "pyval \<Rightarrow> real \<Rightarrow> py_error + real" where
  "py_times_float v x =
     (case v of PyInt i \<Rightarrow> Inr (real_of_int i * x)
              | PyFloat d \<Rightarrow> Inr (d * x)
              | PyList _ \<Rightarrow> Inl TypeError)"

definition py_float_times :: "real \<Rightarrow> pyval \<Rightarrow> py_error + real" where
  "py_float_times x v =
     (case v of PyInt i \<Rightarrow> Inr (x * real_of_int i)
              | PyFloat d \<Rightarrow> Inr (x * d)
              | PyList _ \<Rightarrow> Inl TypeError)"

text \<open>
  Indexing an axis of length \<open>n\<close> with an integer: a negative index counts from the
  end, an index out of range raises \<^verbatim>\<open>IndexError\<close>.
\<close>

definition np_index :: "int \<Rightarrow> nat \<Rightarrow> py_error + nat" where
  "np_index i n =
     (if 0 \<le> i \<and> i < int n then Inr (nat i)
      else if - int n \<le> i \<and> i < 0 then Inr (nat (int n + i))
      else Inl IndexError)"

text \<open>
  \<^verbatim>\<open>xs[inds]\<close> with an array of non-negative indices.
\<close>

definition take_indices :: "'a list \<Rightarrow> nat list \<Rightarrow> py_error + 'a list" where
  "take_indices xs inds =
     (if \<forall>i\<in>set inds. i < length xs then Inr (map (nth xs) inds) else Inl IndexError)"

text \<open>
  \<^verbatim>\<open>np.argsort\<close>. The model sorts stably; NumPy's default sort does not promise an
  order among equal keys.
\<close>

definition argsort :: "int list \<Rightarrow> nat list" where
  "argsort xs = map snd (sort_key fst (zip xs [0..<length xs]))"

text \<open>
  \<^verbatim>\<open>np.mean\<close> and \<^verbatim>\<open>np.roll\<close> (the entry at \<open>i\<close> moves to \<open>i + shift\<close> modulo the
  length).
\<close>

definition np_mean :: "real list \<Rightarrow> real" where
  "np_mean xs = sum_list xs / real (length xs)"

definition np_roll :: "'a list \<Rightarrow> int \<Rightarrow> 'a list" where
  "np_roll Y shift =
     map (\<lambda>j. Y ! nat ((int j - shift) mod int (length Y))) [0..<length Y]"

text \<open>
  \<^verbatim>\<open>xs[offset::step]\<close>
\<close>

definition strided :: "'a list \<Rightarrow> nat \<Rightarrow> nat \<Rightarrow> 'a list" where
  "strided xs offset step =
     map (\<lambda>j. xs ! (offset + j * step)) [0..<(length xs - offset + step - 1) div step]"

subsection \<open>The random number generator\<close>

text \<open>
  NumPy's generator is not part of the repository: its operations are a parameter of
  the model, a record over the type \<open>'g\<close> of generator states. \<open>rng_seed R s\<close> is the
  state of \<^verbatim>\<open>np.random.RandomState(seed=s)\<close>, which is also the global state after
  \<^verbatim>\<open>np.random.seed(s)\<close>. Every draw returns its values and the next state:
  \<open>rng_rand R g n\<close> is \<^verbatim>\<open>rand(n)\<close> (\<open>n\<close> numbers in the unit interval),
  \<open>rng_randint R g low high n\<close> is \<^verbatim>\<open>randint(low, high, n)\<close>,
  \<open>rng_choice R g a n\<close> is \<^verbatim>\<open>choice(a, n)\<close> (\<open>n\<close> indices below \<open>a\<close>), and
  \<open>rng_randn R g m n\<close> is \<^verbatim>\<open>randn(m, n)\<close> (\<open>m\<close> rows of \<open>n\<close> numbers). The model
  relies on these shapes, as the Python code does.
\<close>

record 'g numpy_random =
  rng_seed :: "int \<Rightarrow> 'g"
  rng_rand :: "'g \<Rightarrow> nat \<Rightarrow> real list \<times> 'g"
  rng_randint :: "'g \<Rightarrow> int \<Rightarrow> int \<Rightarrow> nat \<Rightarrow> int list \<times> 'g"
  rng_choice :: "'g \<Rightarrow> nat \<Rightarrow> nat \<Rightarrow> nat list \<times> 'g"
  rng_randn :: "'g \<Rightarrow> nat \<Rightarrow> nat \<Rightarrow> real list list \<times> 'g"

subsection \<open>\<^verbatim>\<open>synthesize_random_firings\<close>\<close>

text \<open>
  \<^verbatim>\<open>rand_distr2\<close> (lines 140 to 143).
\<close>

definition rand_distr2 :: "'g numpy_random \<Rightarrow> real \<Rightarrow> real \<Rightarrow> nat \<Rightarrow> int \<Rightarrow> real list" where
  "rand_distr2 R a b num seed =
     (let X = fst (rng_rand R (rng_seed R seed) num)
      in map (\<lambda>x. a + (b - a) * x ^ 2) X)"

text \<open>
  The body of the loop over \<^verbatim>\<open>unit_id\<close> (lines 115 to 128), with the global
  generator state \<open>g\<close> passed through. \<^verbatim>\<open>np.random.rand\<close> raises
  \<^verbatim>\<open>ValueError\<close> on a negative count. The result is the pair appended to
  \<^verbatim>\<open>times\<close> and \<^verbatim>\<open>labels\<close>; line 125 fills \<^verbatim>\<open>labels0\<close> with ones.
\<close>

definition unit_firings ::
  "'g numpy_random \<Rightarrow> real \<Rightarrow> int \<Rightarrow> int \<Rightarrow> int list \<Rightarrow> nat \<Rightarrow> 'g
     \<Rightarrow> py_error + ((int list \<times> int list) \<times> 'g)" where
  "unit_firings R sampling_frequency N population seeds unit_id g =
     (let refr = 4;
          refr_timepoints = refr / 1000 * sampling_frequency
      in if population < 0 then Inl ValueError
         else
           let (u, g') = rng_rand R g (nat population);
               times0 = map (\<lambda>x. x * (real_of_int N - 1) + 1) u;
               times0 = times0 @ map2 (+) times0
                          (rand_distr2 R refr_timepoints (refr_timepoints * 20)
                             (length times0) (seeds ! unit_id));
               inds = fst (rng_choice R (rng_seed R (seeds ! unit_id))
                             (length times0) (length times0 div 2))
           in ebind (take_indices times0 inds) (\<lambda>times0.
                let times0 = filter (\<lambda>t. 0 \<le> t \<and> t < real_of_int N) times0;
                    times0 = enforce_refractory_period times0 refr_timepoints;
                    labels0 = replicate (length times0) (1::int)
                in Inr ((map trunc times0, labels0), g')))"

text \<open>
  The loop \<^verbatim>\<open>for unit_id in range(K)\<close> (line 114).
\<close>

fun firing_loop ::
  "'g numpy_random \<Rightarrow> real \<Rightarrow> int \<Rightarrow> int \<Rightarrow> int list \<Rightarrow> nat list \<Rightarrow> 'g
     \<Rightarrow> py_error + ((int list \<times> int list) list \<times> 'g)" where
  "firing_loop R sampling_frequency N population seeds [] g = Inr ([], g)"
| "firing_loop R sampling_frequency N population seeds (unit_id # rest) g =
     ebind (unit_firings R sampling_frequency N population seeds unit_id g) (\<lambda>(tl0, g').
     ebind (firing_loop R sampling_frequency N population seeds rest g') (\<lambda>(tls, g'').
     Inr (tl0 # tls, g'')))"

text \<open>
  \<^verbatim>\<open>synthesize_random_firings\<close> (lines 92 to 137). With a seed the global generator
  is reseeded and the per-unit seeds come from a generator of that seed; without one
  they are drawn from the global generator. \<^verbatim>\<open>np.concatenate\<close> raises
  \<^verbatim>\<open>ValueError\<close> on an empty list of arrays (\<open>K = 0\<close>). For a sampling frequency of
  zero and at least one unit NumPy computes the populations with \<^verbatim>\<open>inf\<close> and
  \<^verbatim>\<open>nan\<close>; the model marks this with \<open>NanResult\<close>.
\<close>

definition synthesize_random_firings ::
  "'g numpy_random \<Rightarrow> nat \<Rightarrow> real \<Rightarrow> pyval \<Rightarrow> int option \<Rightarrow> 'g
     \<Rightarrow> py_error + ((int list \<times> int list) \<times> 'g)" where
  "synthesize_random_firings R K sampling_frequency duration seed g0 =
     (let (seeds, g1) =
            (case seed of
               Some s \<Rightarrow> (fst (rng_randint R (rng_seed R s) 0 2147483647 K), rng_seed R s)
             | None \<Rightarrow> rng_randint R g0 0 2147483647 K)
      in ebind (py_times_float duration sampling_frequency) (\<lambda>x.
           let N = trunc x
           in if sampling_frequency = 0 \<and> 0 < K then Inl NanResult
              else
                let population = \<lceil>3 / sampling_frequency * real_of_int N\<rceil>
                in ebind (firing_loop R sampling_frequency N population seeds [0..<K] g1)
                     (\<lambda>(tls, g2).
                        if tls = [] then Inl ValueError
                        else
                          let times = concat (map fst tls);
                              labels = concat (map snd tls);
                              sort_inds = argsort times
                          in Inr ((map (nth times) sort_inds, map (nth labels) sort_inds), g2))))"

subsection \<open>\<^verbatim>\<open>synthesize_random_waveforms\<close>: the normalisation\<close>

text \<open>
  The template tensor \<^verbatim>\<open>WW\<close> of shape \<open>(M, T * upsamplefac, K)\<close>: its shape and its
  entries, \<open>entries W ! m ! t ! k\<close> being \<^verbatim>\<open>WW[m, t, k]\<close>.
\<close>

record waveform_tensor =
  dim_M :: nat
  dim_T :: nat
  dim_K :: nat
  entries :: "real list list list"

definition tensor_wf :: "waveform_tensor \<Rightarrow> bool" where
  "tensor_wf W \<longleftrightarrow>
     length (entries W) = dim_M W \<and>
     (\<forall>row\<in>set (entries W). length row = dim_T W \<and> (\<forall>col\<in>set row. length col = dim_K W))"

text \<open>
  \<^verbatim>\<open>WW[:, :, k]\<close> as a matrix and flattened.
\<close>

definition unit_waveform :: "waveform_tensor \<Rightarrow> nat \<Rightarrow> real list list" where
  "unit_waveform W k = map (map (\<lambda>col. col ! k)) (entries W)"

definition unit_entries :: "waveform_tensor \<Rightarrow> nat \<Rightarrow> real list" where
  "unit_entries W k = concat (map (map (\<lambda>col. col ! k)) (entries W))"

text \<open>
  Line 211: \<^verbatim>\<open>peaks = np.max(np.abs(WW), axis=(0, 1))\<close>. The maximum over an empty
  axis raises \<^verbatim>\<open>ValueError\<close>.
\<close>

definition peaks :: "waveform_tensor \<Rightarrow> py_error + real list" where
  "peaks WW =
     (if dim_M WW = 0 \<or> dim_T WW = 0 then Inl ValueError
      else Inr (map (\<lambda>k. Max (set (map abs (unit_entries WW k)))) [0..<dim_K WW]))"

text \<open>
  Lines 211 and 212, applied to the tensor filled by the loops of lines 199 to 209
  (which draw random shapes through \<^verbatim>\<open>np.exp\<close> and are not modelled). With no unit
  the tensor has no entry and is returned as it is; a mean of zero makes NumPy
  divide by zero and return \<^verbatim>\<open>nan\<close> entries, marked with \<open>NanResult\<close>.
\<close>

definition normalize_waveforms :: "waveform_tensor \<Rightarrow> real \<Rightarrow> py_error + waveform_tensor" where
  "normalize_waveforms WW average_peak_amplitude =
     ebind (peaks WW) (\<lambda>ps.
       if dim_K WW = 0 then Inr WW
       else if np_mean ps = 0 then Inl NanResult
       else Inr (WW\<lparr>entries :=
              map (map (map (\<lambda>x. x / np_mean ps * average_peak_amplitude))) (entries WW)\<rparr>))"

text \<open>
  \<^verbatim>\<open>np.mean(peaks)\<close> of a tensor: the mean over units of the peak absolute amplitude.
\<close>

definition mean_peak :: "waveform_tensor \<Rightarrow> py_error + real" where
  "mean_peak WW = ebind (peaks WW) (\<lambda>ps. Inr (np_mean ps))"

subsection \<open>\<^verbatim>\<open>get_default_neuron_locations\<close>\<close>

text \<open>
  A two-dimensional array of positions (\<^verbatim>\<open>geometry\<close>, \<^verbatim>\<open>neuron_locations\<close>) is the
  list of its columns, so \<^verbatim>\<open>geometry[:, j]\<close> is the column at index \<open>j\<close>.
\<close>

definition geometry_column :: "real list list \<Rightarrow> int \<Rightarrow> py_error + real list" where
  "geometry_column geometry j = ebind (np_index j (length geometry)) (\<lambda>c. Inr (geometry ! c))"

text \<open>
  The body of the loop over \<open>k\<close> (lines 221 to 234): the column stored at
  \<^verbatim>\<open>neuron_locations[:, k - 1]\<close>. \<open>M\<close>, \<open>K\<close> and \<open>k\<close> are Python integers, so
  \<^verbatim>\<open>(k - 1) / (K - 1)\<close> raises \<^verbatim>\<open>ZeroDivisionError\<close> when \<open>K = 1\<close>.
\<close>

definition neuron_location :: "int \<Rightarrow> int \<Rightarrow> real list list \<Rightarrow> int \<Rightarrow> py_error + real list" where
  "neuron_location M K geometry k =
     (if K > 0 then
        if K - 1 = 0 then Inl ZeroDivisionError
        else
          let ind = real_of_int (k - 1) / real_of_int (K - 1) * real_of_int (M - 1) + 1;
              ind0 = trunc ind;
              (ind0, p) = (if ind0 = M then (M - 1, 1) else (ind0, ind - real_of_int ind0))
          in if M > 0 then
               ebind (geometry_column geometry (ind0 - 1)) (\<lambda>c1.
               ebind (geometry_column geometry ind0) (\<lambda>c2.
               Inr (map2 (\<lambda>a b. (1 - p) * a + p * b) c1 c2)))
             else geometry_column geometry 0
      else geometry_column geometry 0)"

text \<open>
  \<^verbatim>\<open>get_default_neuron_locations\<close> (lines 217 to 236): the columns for
  \<open>k = 1, \<dots>, K\<close>. \<^verbatim>\<open>np.zeros\<close> raises \<^verbatim>\<open>ValueError\<close> on a negative \<open>K\<close>.
\<close>

definition get_default_neuron_locations ::
  "int \<Rightarrow> int \<Rightarrow> real list list \<Rightarrow> py_error + real list list" where
  "get_default_neuron_locations M K geometry =
     (if K < 0 then Inl ValueError
      else sequence_err (map (neuron_location M K geometry) [1..K]))"

subsection \<open>Floats with infinities and nan\<close>

text \<open>
  The waveform shaper divides by values that can be zero, and NumPy then continues
  with \<^verbatim>\<open>inf\<close> or \<^verbatim>\<open>nan\<close> (a warning, no exception). Its floats are therefore modelled
  as a finite value, one of the two infinities, or nan. Finite values are reals and
  are computed exactly: rounding, overflow and the sign of zero are not modelled. On
  the special values the operations follow IEEE 754: a non-zero finite value divided
  by zero is an infinity, \<open>0 / 0\<close>, \<open>inf - inf\<close>, \<open>0 * inf\<close> and \<open>inf / inf\<close> are nan, and
  nan propagates through every operation.
\<close>

datatype np_float = Finite real | PosInf | NegInf | NaN

fun fsign :: "np_float \<Rightarrow> int" where
  "fsign (Finite a) = (if a = 0 then 0 else if 0 < a then 1 else - 1)"
| "fsign PosInf = 1"
| "fsign NegInf = - 1"
| "fsign NaN = 0"

definition signed_inf :: "int \<Rightarrow> np_float" where
  "signed_inf s = (if s = 0 then NaN else if 0 < s then PosInf else NegInf)"

fun fneg :: "np_float \<Rightarrow> np_float" where
  "fneg (Finite a) = Finite (- a)"
| "fneg PosInf = NegInf"
| "fneg NegInf = PosInf"
| "fneg NaN = NaN"

fun fadd :: "np_float \<Rightarrow> np_float \<Rightarrow> np_float" where
  "fadd NaN y = NaN"
| "fadd x NaN = NaN"
| "fadd (Finite a) (Finite b) = Finite (a + b)"
| "fadd (Finite a) y = y"
| "fadd x (Finite b) = x"
| "fadd PosInf PosInf = PosInf"
| "fadd NegInf NegInf = NegInf"
| "fadd PosInf NegInf = NaN"
| "fadd NegInf PosInf = NaN"

definition fsub :: "np_float \<Rightarrow> np_float \<Rightarrow> np_float" where
  "fsub x y = fadd x (fneg y)"

fun fmul :: "np_float \<Rightarrow> np_float \<Rightarrow> np_float" where
  "fmul NaN y = NaN"
| "fmul x NaN = NaN"
| "fmul (Finite a) (Finite b) = Finite (a * b)"
| "fmul x y = signed_inf (fsign x * fsign y)"

fun fdiv :: "np_float \<Rightarrow> np_float \<Rightarrow> np_float" where
  "fdiv NaN y = NaN"
| "fdiv x NaN = NaN"
| "fdiv (Finite a) (Finite b) = (if b = 0 then signed_inf (fsign (Finite a)) else Finite (a / b))"
| "fdiv (Finite a) y = Finite 0"
| "fdiv x (Finite b) = (if b < 0 then fneg x else x)"
| "fdiv x y = NaN"

fun fexp :: "np_float \<Rightarrow> np_float" where
  "fexp (Finite a) = Finite (exp a)"
| "fexp PosInf = PosInf"
| "fexp NegInf = Finite 0"
| "fexp NaN = NaN"

fun fabs :: "np_float \<Rightarrow> np_float" where
  "fabs (Finite a) = Finite \<bar>a\<bar>"
| "fabs PosInf = PosInf"
| "fabs NegInf = PosInf"
| "fabs NaN = NaN"

fun fle :: "np_float \<Rightarrow> np_float \<Rightarrow> bool" where
  "fle NaN y = False"
| "fle x NaN = False"
| "fle (Finite a) (Finite b) = (a \<le> b)"
| "fle NegInf y = True"
| "fle x PosInf = True"
| "fle x y = False"

text \<open>
  \<^verbatim>\<open>np.argmax\<close>: the first index of the maximum, where a nan counts as the maximum
  (the first nan is returned); an empty array raises \<^verbatim>\<open>ValueError\<close>.
\<close>

definition np_argmax :: "np_float list \<Rightarrow> py_error + nat" where
  "np_argmax xs =
     (if xs = [] then Inl ValueError
      else if NaN \<in> set xs then Inr (hd (filter (\<lambda>i. xs ! i = NaN) [0..<length xs]))
      else Inr (hd (filter (\<lambda>i. list_all (\<lambda>y. fle y (xs ! i)) xs) [0..<length xs])))"

text \<open>
  \<^verbatim>\<open>np.round\<close> (halves go to the even neighbour) followed by \<^verbatim>\<open>astype('int')\<close>,
  \<^verbatim>\<open>np.cumsum\<close>, and the assignment \<^verbatim>\<open>Y[a:b] = V\<close>: the bounds of the slice are
  clipped to the array as Python does, a value of the length of the slice is
  copied, a value of length one is broadcast, and any other length raises
  \<^verbatim>\<open>ValueError\<close>.
\<close>

definition np_round :: "real \<Rightarrow> int" where
  "np_round x =
     (let f = \<lfloor>x\<rfloor>; d = x - real_of_int f
      in if d < 1 / 2 then f else if 1 / 2 < d then f + 1 else if even f then f else f + 1)"

definition cumsum :: "real list \<Rightarrow> real list" where
  "cumsum xs = map (\<lambda>n. sum_list (take (Suc n) xs)) [0..<length xs]"

definition slice_bound :: "nat \<Rightarrow> int \<Rightarrow> nat" where
  "slice_bound n i = (if i < 0 then nat (max 0 (i + int n)) else min (nat i) n)"

definition assign_slice :: "'a list \<Rightarrow> int \<Rightarrow> int \<Rightarrow> 'a list \<Rightarrow> py_error + 'a list" where
  "assign_slice Y a b V =
     (let lo = slice_bound (length Y) a;
          hi = slice_bound (length Y) b;
          len = hi - lo
      in if length V = len then Inr (take lo Y @ V @ drop (lo + len) Y)
         else if length V = 1 then Inr (take lo Y @ replicate len (hd V) @ drop (lo + len) Y)
         else Inl ValueError)"

text \<open>
  \<^verbatim>\<open>np.linspace(start, stop, num)\<close> with its default \<^verbatim>\<open>endpoint=True\<close>: the samples are
  \<open>i * step + start\<close> with \<open>step = (stop - start) / (num - 1)\<close> (or \<open>i / (num - 1) *
  (stop - start) + start\<close> when the step is zero), and the last sample is overwritten
  with \<open>stop\<close> when there is more than one.
\<close>

definition np_linspace :: "np_float \<Rightarrow> np_float \<Rightarrow> nat \<Rightarrow> np_float list" where
  "np_linspace start stop num =
     (let dv = real num - 1;
          delta = fsub stop start;
          step = fdiv delta (Finite dv);
          y = map (\<lambda>i. if num = 1 then fmul (Finite (real i)) delta
                         else if step = Finite 0
                              then fmul (fdiv (Finite (real i)) (Finite dv)) delta
                              else fmul (Finite (real i)) step)
                [0..<num];
          y = map (\<lambda>v. fadd v start) y
      in if 1 < num then butlast y @ [stop] else y)"

subsection \<open>\<^verbatim>\<open>synthesize_single_waveform\<close>\<close>

text \<open>
  \<^verbatim>\<open>exp_growth\<close>, lines 240 to 247. \<open>dur1\<close> is the number of samples. With no sample,
  \<^verbatim>\<open>Y[-1]\<close> raises \<^verbatim>\<open>IndexError\<close>. With one sample \<^verbatim>\<open>Y[-1] - Y[0]\<close> is zero, and with
  \<open>dur2 = 0\<close> the quotient \<^verbatim>\<open>t / dur2\<close> is \<open>0 / 0\<close> at the first sample.
\<close>

definition exp_growth :: "real \<Rightarrow> real \<Rightarrow> int \<Rightarrow> real \<Rightarrow> py_error + np_float list" where
  "exp_growth amp1 amp2 dur1 dur2 =
     (if dur1 \<le> 0 then Inl IndexError
      else
        let t = map real [0..<nat dur1];
            Y = map (\<lambda>t. fexp (fdiv (Finite t) (Finite dur2))) t;
            Y = map (\<lambda>y. fmul (fdiv y (fsub (last Y) (hd Y))) (Finite (amp2 - amp1))) Y;
            Y = map (\<lambda>y. fadd (fsub y (hd Y)) (Finite amp1)) Y
        in Inr Y)"

text \<open>
  \<^verbatim>\<open>exp_decay\<close>, lines 250 to 253.
\<close>

definition exp_decay :: "real \<Rightarrow> real \<Rightarrow> int \<Rightarrow> real \<Rightarrow> py_error + np_float list" where
  "exp_decay amp1 amp2 dur1 dur2 = ebind (exp_growth amp2 amp1 dur1 dur2) (\<lambda>Y. Inr (rev Y))"

text \<open>
  \<^verbatim>\<open>smooth_it\<close>, lines 256 to 260: the sum of the array rolled by \<open>-t, \<dots>, t\<close>.
\<close>

definition smooth_it :: "np_float list \<Rightarrow> int \<Rightarrow> np_float list" where
  "smooth_it Y t =
     fold (\<lambda>j Z. map2 fadd Z (np_roll Y j)) [- t..t] (replicate (length Y) (Finite 0))"

text \<open>
  \<^verbatim>\<open>synthesize_single_waveform\<close>, lines 263 to 288. The function indexes four
  durations and four amplitudes, which the model takes as tuples of reals; on a list
  of integers and an integer \<open>N\<close> the assignment of line 266 stores an integer, so the
  arithmetic is the same.

  \<^item> Lines 265 and 266: when the durations sum to \<open>N - 2\<close> or more, the last one is
    replaced by \<open>N - 2\<close> minus the sum of the first three; nothing keeps it positive.
  \<^item> Line 270: \<open>timepoints\<close> are the rounded cumulated durations minus one, after a
    leading zero.
  \<^item> Line 272: \<^verbatim>\<open>t = np.r_[0:sum + 1]\<close> has \<open>\<lceil>sum + 1\<rceil>\<close> entries.
  \<^item> Lines 275 to 280: the four segments are written into \<open>Y\<close>; segment \<open>i\<close> has
    \<open>timepoints[i + 1] + 1 - timepoints[i]\<close> samples.
  \<^item> Lines 281 and 282: smoothing over seven shifts and removal of the line through
    the two end points. \<^verbatim>\<open>Y[0]\<close> raises \<^verbatim>\<open>IndexError\<close> on an empty array.
  \<^item> Lines 283 to 286: padding with zeros to length \<open>N\<close> (\<^verbatim>\<open>np.zeros\<close> raises
    \<^verbatim>\<open>ValueError\<close> on a negative length) and the circular shift that moves the
    index found by \<^verbatim>\<open>np.argmax\<close> to \<open>\<lfloor>N / 2\<rfloor>\<close>.
\<close>

definition synthesize_single_waveform ::
  "int \<Rightarrow> real \<times> real \<times> real \<times> real \<Rightarrow> real \<times> real \<times> real \<times> real
     \<Rightarrow> py_error + np_float list" where
  "synthesize_single_waveform N durations amps =
     (case (durations, amps) of ((d0, d1, d2, d3), (a0, a1, a2, a3)) \<Rightarrow>
        let durations = [d0, d1, d2, d3];
            durations = (if real_of_int (N - 2) \<le> sum_list durations
                         then durations[3 := real_of_int (N - 2) - sum_list (take 3 durations)]
                         else durations);
            amps = [a0, a1, a2, a3];
            timepoints = map np_round (0 # map (\<lambda>c. c - 1) (cumsum durations));
            len_t = nat \<lceil>sum_list durations + 1\<rceil>;
            Y = replicate len_t (Finite 0)
        in ebind (exp_growth 0 (amps ! 0) (timepoints ! 1 + 1 - timepoints ! 0)
                    (durations ! 0 / 4)) (\<lambda>V.
           ebind (assign_slice Y (timepoints ! 0) (timepoints ! 1 + 1) V) (\<lambda>Y.
           ebind (exp_growth (amps ! 0) (amps ! 1) (timepoints ! 2 + 1 - timepoints ! 1)
                    (durations ! 1)) (\<lambda>V.
           ebind (assign_slice Y (timepoints ! 1) (timepoints ! 2 + 1) V) (\<lambda>Y.
           ebind (exp_decay (amps ! 1) (amps ! 2) (timepoints ! 3 + 1 - timepoints ! 2)
                    (durations ! 2 / 4)) (\<lambda>V.
           ebind (assign_slice Y (timepoints ! 2) (timepoints ! 3 + 1) V) (\<lambda>Y.
           ebind (exp_decay (amps ! 2) (amps ! 3) (timepoints ! 4 + 1 - timepoints ! 3)
                    (durations ! 3 / 5)) (\<lambda>V.
           ebind (assign_slice Y (timepoints ! 3) (timepoints ! 4 + 1) V) (\<lambda>Y.
             let Y = smooth_it Y 3
             in if Y = [] then Inl IndexError
                else
                  let Y = map2 fsub Y (np_linspace (hd Y) (last Y) len_t)
                  in if N - int len_t < 0 then Inl ValueError
                     else
                       let Y = Y @ replicate (nat (N - int len_t)) (Finite 0);
                           Nmid = \<lfloor>real_of_int N / 2\<rfloor>
                       in ebind (np_argmax (map fabs Y)) (\<lambda>peakind.
                            Inr (np_roll Y (Nmid - int peakind))))))))))))"

subsection \<open>\<^verbatim>\<open>synthesize_timeseries\<close>\<close>

text \<open>
  Line 317: \<^verbatim>\<open>X[:, tstart:tstart + T] = X[:, tstart:tstart + T] + S\<close>, for a window
  inside the columns of \<open>X\<close> and a slice \<open>S\<close> with \<open>L\<close> columns. NumPy adds the slice
  when \<open>L = T\<close>, broadcasts a single column, and raises \<^verbatim>\<open>ValueError\<close> otherwise.
\<close>

definition add_window ::
  "real list list \<Rightarrow> nat \<Rightarrow> nat \<Rightarrow> real list list \<Rightarrow> nat \<Rightarrow> py_error + real list list" where
  "add_window X tstart T S L =
     (if L = T \<or> L = 1 then
        Inr (map (\<lambda>m. map (\<lambda>j. if tstart \<le> j \<and> j < tstart + T
                                then X ! m ! j + S ! m ! (if L = 1 then 0 else j - tstart)
                                else X ! m ! j)
                         [0..<length (X ! m)])
                 [0..<length X])
      else Inl ValueError)"

text \<open>
  Lines 315 and 316: the first column of the window of a spike at \<open>t0\<close>, and the test
  that the window lies inside the recording.
\<close>

definition spike_window_start :: "int \<Rightarrow> real \<Rightarrow> int" where
  "spike_window_start Tmid t0 = \<lfloor>t0\<rfloor> - Tmid"

definition spike_in_bounds :: "nat \<Rightarrow> int \<Rightarrow> int \<Rightarrow> real \<Rightarrow> bool" where
  "spike_in_bounds T Tmid N t0 \<longleftrightarrow>
     0 \<le> spike_window_start Tmid t0 \<and> spike_window_start Tmid t0 + int T \<le> N"

text \<open>
  The body of the loop over \<^verbatim>\<open>times0\<close> (lines 313 to 318); \<open>TT\<close> is the number of
  columns of \<^verbatim>\<open>waveform0\<close>.
\<close>

definition stamp_spike ::
  "real list list \<Rightarrow> real list list \<Rightarrow> nat \<Rightarrow> nat \<Rightarrow> nat \<Rightarrow> int \<Rightarrow> int \<Rightarrow> real
     \<Rightarrow> py_error + real list list" where
  "stamp_spike X waveform0 TT waveform_upsamplefac T Tmid N t0 =
     (let amp0 = 1;
          frac_offset = nat \<lfloor>(t0 - real_of_int \<lfloor>t0\<rfloor>) * real waveform_upsamplefac\<rfloor>;
          tstart = spike_window_start Tmid t0
      in if 0 \<le> tstart \<and> tstart + int T \<le> N then
           add_window X (nat tstart) T
             (map (\<lambda>row. map (\<lambda>w. w * amp0) (strided row frac_offset waveform_upsamplefac))
                waveform0)
             ((TT - frac_offset + waveform_upsamplefac - 1) div waveform_upsamplefac)
         else Inr X)"

fun stamp_spikes ::
  "real list list \<Rightarrow> real list list \<Rightarrow> nat \<Rightarrow> nat \<Rightarrow> nat \<Rightarrow> int \<Rightarrow> int \<Rightarrow> real list
     \<Rightarrow> py_error + real list list" where
  "stamp_spikes X waveform0 TT uf T Tmid N [] = Inr X"
| "stamp_spikes X waveform0 TT uf T Tmid N (t0 # times0) =
     ebind (stamp_spike X waveform0 TT uf T Tmid N t0) (\<lambda>X'.
       stamp_spikes X' waveform0 TT uf T Tmid N times0)"

text \<open>
  Line 310: \<^verbatim>\<open>spike_times[spike_labels == k0]\<close>. A boolean index of another length
  raises \<^verbatim>\<open>IndexError\<close>.
\<close>

definition select_label :: "real list \<Rightarrow> int list \<Rightarrow> int \<Rightarrow> py_error + real list" where
  "select_label spike_times spike_labels k0 =
     (if length spike_labels \<noteq> length spike_times then Inl IndexError
      else Inr (map fst (filter (\<lambda>(t, l). l = k0) (zip spike_times spike_labels))))"

text \<open>
  The loop over \<^verbatim>\<open>unit_ids\<close> (lines 308 to 318).
\<close>

fun stamp_units ::
  "real list list \<Rightarrow> waveform_tensor \<Rightarrow> nat \<Rightarrow> nat \<Rightarrow> int \<Rightarrow> int \<Rightarrow> real list \<Rightarrow> int list
     \<Rightarrow> int list \<Rightarrow> py_error + real list list" where
  "stamp_units X W uf T Tmid N spike_times spike_labels [] = Inr X"
| "stamp_units X W uf T Tmid N spike_times spike_labels (k0 # unit_ids) =
     ebind (np_index (k0 - 1) (dim_K W)) (\<lambda>k.
     ebind (select_label spike_times spike_labels k0) (\<lambda>times0.
     ebind (stamp_spikes X (unit_waveform W k) (dim_T W) uf T Tmid N times0) (\<lambda>X'.
       stamp_units X' W uf T Tmid N spike_times spike_labels unit_ids)))"

text \<open>
  Lines 298 and 299: \<open>T\<close> and \<open>Tmid\<close>.
\<close>

definition template_length :: "waveform_tensor \<Rightarrow> nat \<Rightarrow> nat" where
  "template_length W waveform_upsamplefac = dim_T W div waveform_upsamplefac"

definition template_mid :: "nat \<Rightarrow> int" where
  "template_mid T = \<lceil>(real T + 1) / 2 - 1\<rceil>"

text \<open>
  Lines 303 to 306: the noise background, and the global generator state after it.
\<close>

definition noise_background ::
  "'g numpy_random \<Rightarrow> nat \<Rightarrow> nat \<Rightarrow> real \<Rightarrow> int option \<Rightarrow> 'g \<Rightarrow> real list list \<times> 'g" where
  "noise_background R M N noise_level seed g =
     (let (Z, g') = (case seed of Some s \<Rightarrow> (fst (rng_randn R (rng_seed R s) M N), g)
                                | None \<Rightarrow> rng_randn R g M N)
      in (map (map (\<lambda>z. z * noise_level)) Z, g'))"

text \<open>
  \<^verbatim>\<open>synthesize_timeseries\<close> (lines 290 to 320). \<^verbatim>\<open>waveform_upsamplefac\<close> is a
  natural number; \<^verbatim>\<open>TT / waveform_upsamplefac\<close> raises \<^verbatim>\<open>ZeroDivisionError\<close> when it
  is zero, and \<^verbatim>\<open>randn\<close> raises \<^verbatim>\<open>ValueError\<close> on a negative size.
\<close>

definition synthesize_timeseries ::
  "'g numpy_random \<Rightarrow> real list \<Rightarrow> int list \<Rightarrow> int list \<Rightarrow> waveform_tensor \<Rightarrow> real \<Rightarrow> pyval
     \<Rightarrow> real \<Rightarrow> nat \<Rightarrow> int option \<Rightarrow> 'g \<Rightarrow> py_error + (real list list \<times> 'g)" where
  "synthesize_timeseries R spike_times spike_labels unit_ids W sampling_frequency duration
       noise_level waveform_upsamplefac seed g =
     ebind (py_float_times sampling_frequency duration) (\<lambda>x.
       let N = trunc x
       in if waveform_upsamplefac = 0 then Inl ZeroDivisionError
          else
            let T = template_length W waveform_upsamplefac;
                Tmid = template_mid T
            in if N < 0 then Inl ValueError
               else
                 let (X, g') = noise_background R (dim_M W) (nat N) noise_level seed g
                 in ebind (stamp_units X W waveform_upsamplefac T Tmid N
                             spike_times spike_labels unit_ids)
                      (\<lambda>X'. Inr (X', g')))"

text \<open>
  Two predicates for stating what the loops leave untouched: column \<open>j\<close> lies outside
  the window of every spike that passes the test of line 316, and two matrices have
  the same shape and agree on the columns that satisfy \<open>P\<close>.
\<close>

definition outside_windows :: "nat \<Rightarrow> int \<Rightarrow> int \<Rightarrow> real list \<Rightarrow> nat \<Rightarrow> bool" where
  "outside_windows T Tmid N spike_times j \<longleftrightarrow>
     (\<forall>t\<in>set spike_times. spike_in_bounds T Tmid N t \<longrightarrow>
        \<not> (spike_window_start Tmid t \<le> int j \<and> int j < spike_window_start Tmid t + int T))"

definition same_outside :: "(nat \<Rightarrow> bool) \<Rightarrow> real list list \<Rightarrow> real list list \<Rightarrow> bool" where
  "same_outside P X X' \<longleftrightarrow>
     length X' = length X \<and>
     (\<forall>m<length X. length (X' ! m) = length (X ! m) \<and>
        (\<forall>j<length (X ! m). P j \<longrightarrow> X' ! m ! j = X ! m ! j))"

subsection \<open>\<^verbatim>\<open>toy_example\<close>\<close>

text \<open>
  Lines 46 to 52: the list \<^verbatim>\<open>durations\<close>, or the \<^verbatim>\<open>AssertionError\<close> of a failed
  \<^verbatim>\<open>assert\<close>.
\<close>

definition check_durations :: "pyval \<Rightarrow> nat \<Rightarrow> py_error + pyval list" where
  "check_durations duration num_segments =
     (case duration of
        PyFloat d \<Rightarrow> Inr (replicate num_segments duration)
      | PyList durations \<Rightarrow>
          if length durations \<noteq> num_segments then Inl AssertionError
          else if \<not> list_all (\<lambda>d. case d of PyFloat _ \<Rightarrow> True | _ \<Rightarrow> False) durations
               then Inl AssertionError
          else Inr durations
      | PyInt _ \<Rightarrow> Inl AssertionError)"

text \<open>
  The body of the loop over segments (lines 64 to 70). Both calls receive
  \<^verbatim>\<open>duration\<close>, not an entry of \<^verbatim>\<open>durations\<close>.
\<close>

definition toy_segment ::
  "'g numpy_random \<Rightarrow> pyval \<Rightarrow> nat \<Rightarrow> real \<Rightarrow> nat \<Rightarrow> int option \<Rightarrow> waveform_tensor \<Rightarrow> int list
     \<Rightarrow> 'g \<Rightarrow> py_error + ((int list \<times> int list \<times> real list list) \<times> 'g)" where
  "toy_segment R duration num_units sampling_frequency upsamplefac seed waveforms unit_ids g =
     ebind (synthesize_random_firings R num_units sampling_frequency duration seed g)
       (\<lambda>((times, labels), g').
     ebind (synthesize_timeseries R (map real_of_int times) labels unit_ids waveforms
              sampling_frequency duration 10 upsamplefac seed g')
       (\<lambda>(traces, g''). Inr ((times, labels, traces), g'')))"

fun toy_segments ::
  "'g numpy_random \<Rightarrow> pyval \<Rightarrow> nat \<Rightarrow> real \<Rightarrow> nat \<Rightarrow> int option \<Rightarrow> waveform_tensor \<Rightarrow> int list
     \<Rightarrow> nat \<Rightarrow> 'g \<Rightarrow> py_error + ((int list \<times> int list \<times> real list list) list \<times> 'g)" where
  "toy_segments R duration num_units sampling_frequency upsamplefac seed waveforms unit_ids 0 g =
     Inr ([], g)"
| "toy_segments R duration num_units sampling_frequency upsamplefac seed waveforms unit_ids
       (Suc n) g =
     ebind (toy_segment R duration num_units sampling_frequency upsamplefac seed waveforms
              unit_ids g) (\<lambda>(seg, g').
     ebind (toy_segments R duration num_units sampling_frequency upsamplefac seed waveforms
              unit_ids n g') (\<lambda>(segs, g'').
     Inr (seg # segs, g'')))"

text \<open>
  \<^verbatim>\<open>toy_example\<close> (lines 43 to 75). The argument \<open>waveforms\<close> is the tensor returned
  by \<^verbatim>\<open>synthesize_random_waveforms\<close> at line 55 (which consumes
  \<^verbatim>\<open>num_channels\<close> and \<^verbatim>\<open>average_peak_amplitude\<close>), and \<open>g\<close> is the global generator
  state after that call. The result is \<^verbatim>\<open>(traces_list, times_list, labels_list)\<close>,
  the arguments of the recording and sorting constructors.
\<close>

definition toy_example ::
  "'g numpy_random \<Rightarrow> pyval \<Rightarrow> nat \<Rightarrow> real \<Rightarrow> nat \<Rightarrow> nat \<Rightarrow> int option \<Rightarrow> waveform_tensor \<Rightarrow> 'g
     \<Rightarrow> py_error + ((real list list list \<times> int list list \<times> int list list) \<times> 'g)" where
  "toy_example R duration num_units sampling_frequency num_segments upsamplefac seed waveforms g =
     (let duration = (case duration of PyInt i \<Rightarrow> PyFloat (real_of_int i) | _ \<Rightarrow> duration)
      in ebind (check_durations duration num_segments) (\<lambda>durations.
           let unit_ids = map int [0..<num_units]
           in ebind (toy_segments R duration num_units sampling_frequency upsamplefac seed
                       waveforms unit_ids num_segments g)
                (\<lambda>(segs, g').
                   Inr ((map (\<lambda>(times, labels, traces). traces) segs,
                         map (\<lambda>(times, labels, traces). times) segs,
                         map (\<lambda>(times, labels, traces). labels) segs), g'))))"

subsection \<open>Concrete inputs\<close>

text \<open>
  A small deterministic generator and a small template tensor, on which the model is
  run at concrete inputs.
\<close>

definition counter_rng :: "nat numpy_random" where
  "counter_rng =
     \<lparr> rng_seed = (\<lambda>s. nat \<bar>s\<bar>),
       rng_rand = (\<lambda>g n. (replicate n (real ((4 + g) mod 10) / 10), Suc g)),
       rng_randint = (\<lambda>g low high n. (map (\<lambda>i. low + int i) [0..<n], Suc g)),
       rng_choice = (\<lambda>g a n. (replicate n 0, Suc g)),
       rng_randn = (\<lambda>g m n. (replicate m (replicate n (real (g mod 3) - 1)), Suc g)) \<rparr>"

definition toy_waveforms :: waveform_tensor where
  "toy_waveforms =
     \<lparr> dim_M = 1, dim_T = 4, dim_K = 2,
       entries = [[[1, 10], [2, 20], [3, 30], [4, 40]]] \<rparr>"

definition two_unit_tensor :: waveform_tensor where
  "two_unit_tensor =
     \<lparr> dim_M = 1, dim_T = 2, dim_K = 2, entries = [[[1, - 2], [- 3, 1]]] \<rparr>"

section \<open>Properties\<close>

subsection \<open>Refractory repair\<close>

lemma mark_removed_map:
  "mark_removed ts inds = map (\<lambda>i. if i \<in> set inds then - 1 else ts ! i) [0..<length ts]"
  by (rule nth_equalityI) (simp_all add: length_mark_removed nth_mark_removed)

lemma remove_marked_map:
  "remove_marked ts inds = map (nth ts) (filter (\<lambda>i. i \<notin> set inds \<and> 0 \<le> ts ! i) [0..<length ts])"
proof -
  have "remove_marked ts inds =
          map (\<lambda>i. if i \<in> set inds then - 1 else ts ! i)
            (filter (\<lambda>i. 0 \<le> (if i \<in> set inds then - 1 else ts ! i)) [0..<length ts])"
    by (simp add: remove_marked_def mark_removed_map filter_map comp_def)
  also have "filter (\<lambda>i. 0 \<le> (if i \<in> set inds then - 1 else ts ! i)) [0..<length ts] =
             filter (\<lambda>i. i \<notin> set inds \<and> 0 \<le> ts ! i) [0..<length ts]"
    by (rule filter_cong) auto
  also have "map (\<lambda>i. if i \<in> set inds then - 1 else ts ! i) \<dots> = map (nth ts) \<dots>"
    by (rule map_cong) auto
  finally show ?thesis .
qed

lemma sorted_remove_marked:
  assumes "sorted ts"
  shows "sorted (remove_marked ts inds)"
proof -
  have "sorted_wrt (\<lambda>i j. ts ! i \<le> ts ! j) [0..<length ts]"
    using assms by (auto simp: sorted_wrt_iff_nth_less sorted_iff_nth_mono)
  then have "sorted_wrt (\<lambda>i j. ts ! i \<le> ts ! j)
               (filter (\<lambda>i. i \<notin> set inds \<and> 0 \<le> ts ! i) [0..<length ts])"
    by (rule sorted_wrt_filter)
  then show ?thesis
    by (simp add: remove_marked_map sorted_wrt_map)
qed

lemma set_remove_marked: "set (remove_marked ts inds) \<subseteq> set ts"
  by (auto simp: remove_marked_map)

lemma no_inds_gaps:
  assumes "refractory_inds ts refr = []" and "Suc i < length ts"
  shows "refr < ts ! Suc i - ts ! i"
  using assms(2)
proof (induction "length ts - i" arbitrary: i rule: less_induct)
  case less
  show ?case
  proof (rule ccontr)
    assume "\<not> refr < ts ! Suc i - ts ! i"
    then have v: "ts ! Suc i - ts ! i \<le> refr" by simp
    have "Suc (Suc i) < length ts \<longrightarrow> refr \<le> ts ! Suc (Suc i) - ts ! Suc i"
    proof
      assume s: "Suc (Suc i) < length ts"
      then have "length ts - Suc i < length ts - i" by simp
      from less.hyps[OF this s] show "refr \<le> ts ! Suc (Suc i) - ts ! Suc i" by simp
    qed
    then have "i \<in> set (refractory_inds ts refr)"
      using v less.prems by (simp add: refractory_inds_iff)
    then show False using assms(1) by simp
  qed
qed


lemma enforce_loop_sorted: "sorted ts \<Longrightarrow> sorted (enforce_loop ts refr)"
proof (induction ts refr rule: enforce_loop.induct)
  case (1 times0 refr)
  show ?case
  proof (cases "refractory_inds times0 refr = []")
    case True
    then show ?thesis using 1 by (simp add: enforce_loop.simps[of times0])
  next
    case False
    then show ?thesis
      using 1 by (simp add: enforce_loop.simps[of times0] sorted_remove_marked)
  qed
qed

lemma enforce_loop_subset: "set (enforce_loop ts refr) \<subseteq> set ts"
proof (induction ts refr rule: enforce_loop.induct)
  case (1 times0 refr)
  show ?case
  proof (cases "refractory_inds times0 refr = []")
    case True
    then show ?thesis by (simp add: enforce_loop.simps[of times0])
  next
    case False
    then have "set (enforce_loop times0 refr) \<subseteq> set (remove_marked times0 (refractory_inds times0 refr))"
      using 1 by (simp add: enforce_loop.simps[of times0])
    then show ?thesis using set_remove_marked by blast
  qed
qed

lemma enforce_loop_fixed: "refractory_inds (enforce_loop ts refr) refr = []"
proof (induction ts refr rule: enforce_loop.induct)
  case (1 times0 refr)
  show ?case
  proof (cases "refractory_inds times0 refr = []")
    case True
    then show ?thesis by (simp add: enforce_loop.simps[of times0])
  next
    case False
    then show ?thesis using 1 by (simp add: enforce_loop.simps[of times0])
  qed
qed

lemma gaps_sorted_wrt:
  fixes ts :: "real list"
  assumes "sorted ts" and "\<forall>i. Suc i < length ts \<longrightarrow> refr < ts ! Suc i - ts ! i"
  shows "sorted_wrt (\<lambda>x y. refr < y - x) ts"
proof -
  have "successively (\<lambda>x y. x \<le> y \<and> refr < y - x) ts"
    using assms by (auto simp: successively_conv_nth sorted_iff_nth_mono)
  moreover have "transp (\<lambda>(x::real) y. x \<le> y \<and> refr < y - x)"
    by (rule transpI) linarith
  ultimately have "sorted_wrt (\<lambda>x y. x \<le> y \<and> refr < y - x) ts"
    by (simp add: successively_conv_sorted_wrt)
  then show ?thesis by (rule sorted_wrt_mono_rel[rotated]) simp
qed


lemma remove_marked_keeps:
  fixes ts :: "real list"
  assumes "sorted ts" and "x \<in> set ts" and "0 \<le> x"
    and "\<forall>y\<in>set ts. x < y \<longrightarrow> refr < y - x"
  shows "x \<in> set (remove_marked ts (refractory_inds ts refr))"
proof -
  let ?J = "{k. k < length ts \<and> ts ! k = x}"
  have fin: "finite ?J" by simp
  have ne: "?J \<noteq> {}" using assms(2) by (auto simp: in_set_conv_nth)
  define j where "j = Max ?J"
  have "j \<in> ?J" unfolding j_def using fin ne by (rule Max_in)
  then have jl: "j < length ts" and jx: "ts ! j = x" by auto
  have jmax: "k \<le> j" if "k < length ts" and "ts ! k = x" for k
    unfolding j_def using that fin by (intro Max_ge) auto
  have "j \<notin> set (refractory_inds ts refr)"
  proof
    assume "j \<in> set (refractory_inds ts refr)"
    then have s: "Suc j < length ts" and v: "ts ! Suc j - ts ! j \<le> refr"
      by (simp_all add: refractory_inds_iff)
    have "ts ! j \<le> ts ! Suc j" using assms(1) s by (simp add: sorted_iff_nth_mono)
    moreover have "ts ! Suc j \<noteq> x" using jmax[OF s] by auto
    ultimately have "x < ts ! Suc j" using jx by simp
    moreover have "ts ! Suc j \<in> set ts" using s by simp
    ultimately have "refr < ts ! Suc j - x" using assms(4) by blast
    then show False using v jx by simp
  qed
  then have "j \<in> set (filter (\<lambda>i. i \<notin> set (refractory_inds ts refr) \<and> 0 \<le> ts ! i) [0..<length ts])"
    using jl jx assms(3) by simp
  then have "ts ! j \<in> set (remove_marked ts (refractory_inds ts refr))"
    unfolding remove_marked_map set_map by (rule imageI)
  then show ?thesis using jx by simp
qed

lemma enforce_loop_keeps:
  fixes ts :: "real list"
  assumes "sorted ts" and "x \<in> set ts" and "0 \<le> x"
    and "\<forall>y\<in>set ts. x < y \<longrightarrow> refr < y - x"
  shows "x \<in> set (enforce_loop ts refr)"
  using assms
proof (induction ts refr rule: enforce_loop.induct)
  case (1 times0 refr)
  show ?case
  proof (cases "refractory_inds times0 refr = []")
    case True
    then show ?thesis using 1 by (simp add: enforce_loop.simps[of times0])
  next
    case False
    let ?ts = "remove_marked times0 (refractory_inds times0 refr)"
    have a: "sorted ?ts" using "1.prems"(1) by (rule sorted_remove_marked)
    have b: "x \<in> set ?ts" using "1.prems" by (intro remove_marked_keeps) auto
    have c: "\<forall>y\<in>set ?ts. x < y \<longrightarrow> refr < y - x"
      using "1.prems"(4) set_remove_marked by blast
    have "x \<in> set (enforce_loop ?ts refr)"
      using "1.IH"[OF refl False a b "1.prems"(3) c] .
    then show ?thesis using False by (simp add: enforce_loop.simps[of times0])
  qed
qed

lemma enforce_loop_gaps:
  "sorted ts \<Longrightarrow> sorted_wrt (\<lambda>x y. refr < y - x) (enforce_loop ts refr)"
  by (intro gaps_sorted_wrt enforce_loop_sorted allI impI no_inds_gaps enforce_loop_fixed)

lemma enforce_refractory_period_gaps:
  "sorted_wrt (\<lambda>x y. refr < y - x) (enforce_refractory_period times_in refr)"
  by (simp add: enforce_refractory_period_def enforce_loop_gaps)

lemma enforce_loop_passes:
  "\<exists>n\<le>length ts. enforce_loop ts refr = ((\<lambda>t. remove_marked t (refractory_inds t refr)) ^^ n) ts"
proof (induction ts refr rule: enforce_loop.induct)
  case (1 times0 refr)
  define pass where "pass = (\<lambda>t. remove_marked t (refractory_inds t refr))"
  show ?case
  proof (cases "refractory_inds times0 refr = []")
    case True
    then have "enforce_loop times0 refr = (pass ^^ 0) times0"
      by (simp add: enforce_loop.simps[of times0])
    then show ?thesis unfolding pass_def by blast
  next
    case False
    obtain n where n: "n \<le> length (pass times0)"
      and e: "enforce_loop (pass times0) refr = (pass ^^ n) (pass times0)"
      using "1.IH"[OF refl False] unfolding pass_def by blast
    have "length (pass times0) < length times0"
      using False by (simp add: pass_def remove_marked_shrinks refractory_inds_less)
    then have "Suc n \<le> length times0" using n by simp
    moreover have "enforce_loop times0 refr = enforce_loop (pass times0) refr"
      using False by (simp add: enforce_loop.simps[of times0] pass_def)
    then have "enforce_loop times0 refr = (pass ^^ Suc n) times0"
      using e by (simp add: funpow_swap1)
    ultimately show ?thesis unfolding pass_def by blast
  qed
qed

text \<open>
  Claim C9. The refractory repair terminates on every input: a pass that selects at
  least one index returns a strictly shorter array, so the loop is the iteration of
  at most \<open>length ts\<close> passes; a pass over a sorted array that selects nothing
  leaves it unchanged, and then no two of its times are within the threshold. In
  particular the returned array has no pair of times within the threshold.
\<close>

theorem enforce_refractory_period_terminates:
  fixes ts times_in :: "real list"
  shows "(refractory_inds ts refr \<noteq> [] \<longrightarrow>
            length (remove_marked ts (refractory_inds ts refr)) < length ts)
       \<and> (\<exists>n\<le>length ts.
            enforce_loop ts refr = ((\<lambda>t. remove_marked t (refractory_inds t refr)) ^^ n) ts)
       \<and> (sorted ts \<and> refractory_inds ts refr = [] \<longrightarrow>
            enforce_loop ts refr = ts \<and> sorted_wrt (\<lambda>x y. refr < y - x) ts)
       \<and> sorted_wrt (\<lambda>x y. refr < y - x) (enforce_refractory_period times_in refr)"
proof (intro conjI impI)
  assume "refractory_inds ts refr \<noteq> []"
  then show "length (remove_marked ts (refractory_inds ts refr)) < length ts"
    by (simp add: remove_marked_shrinks refractory_inds_less)
next
  show "\<exists>n\<le>length ts.
          enforce_loop ts refr = ((\<lambda>t. remove_marked t (refractory_inds t refr)) ^^ n) ts"
    by (rule enforce_loop_passes)
next
  assume a: "sorted ts \<and> refractory_inds ts refr = []"
  then show "enforce_loop ts refr = ts" by (simp add: enforce_loop.simps[of ts])
  from a show "sorted_wrt (\<lambda>x y. refr < y - x) ts"
    by (intro gaps_sorted_wrt allI impI no_inds_gaps) simp_all
next
  show "sorted_wrt (\<lambda>x y. refr < y - x) (enforce_refractory_period times_in refr)"
    by (rule enforce_refractory_period_gaps)
qed

lemmas eval_refr = enforce_refractory_period_def enforce_loop.simps refractory_inds_def
  adjacent_diffs_def where_true_def remove_marked_def mark_removed_def

text \<open>
  Claim C9, at an input: one pass on \<open>[100, 150, 400]\<close> with threshold 120 removes a
  time, and the pass on \<open>[150, 400]\<close> removes nothing.
\<close>

theorem enforce_refractory_period_terminates_witness:
  "refractory_inds [100, 150, 400] 120 \<noteq> []
   \<and> length (remove_marked [100, 150, 400] (refractory_inds [100, 150, 400] 120)) < length [100, 150, 400 :: real]
   \<and> sorted [150, 400 :: real] \<and> refractory_inds [150, 400] 120 = []
   \<and> enforce_loop [150, 400] 120 = [150, 400]
   \<and> sorted_wrt (\<lambda>x y. 120 < y - x) [150, 400 :: real]
   \<and> enforce_refractory_period [150, 100, 400] 120 = [150, 400]"
proof -
  have h1: "refractory_inds [100, 150, 400] 120 \<noteq> []"
    by (simp add: refractory_inds_def adjacent_diffs_def where_true_def)
  have h2: "sorted [150, 400 :: real] \<and> refractory_inds [150, 400] 120 = []"
    by (simp add: refractory_inds_def adjacent_diffs_def where_true_def)
  have e: "enforce_refractory_period [150, 100, 400] 120 = [150, 400]"
    by (simp add: eval_refr)
  show ?thesis
    using h1 h2 e
      enforce_refractory_period_terminates[of "[100, 150, 400]" 120]
      enforce_refractory_period_terminates[of "[150, 400]" 120]
    by simp
qed

text \<open>
  Claim C3, as the code has it. When two input times \<open>a < b\<close> are within the
  threshold of each other, \<open>b\<close> is not negative, and no other input time is within
  the threshold of either, the returned array contains the later time \<open>b\<close> and
  omits the earlier time \<open>a\<close>: the index a pass selects is that of the first member
  of the violating pair.
\<close>

theorem enforce_refractory_period_keeps_later:
  fixes times_in :: "real list"
  assumes "a \<in> set times_in" and "b \<in> set times_in" and "a < b" and "b - a \<le> refr"
    and "0 \<le> b"
    and "\<forall>y\<in>set times_in. y \<noteq> a \<and> y \<noteq> b \<longrightarrow> refr < \<bar>y - a\<bar> \<and> refr < \<bar>y - b\<bar>"
  shows "b \<in> set (enforce_refractory_period times_in refr)
       \<and> a \<notin> set (enforce_refractory_period times_in refr)"
proof -
  let ?out = "enforce_refractory_period times_in refr"
  have ne: "times_in \<noteq> []" using assms(1) by auto
  have later: "\<forall>y\<in>set (sort times_in). b < y \<longrightarrow> refr < y - b"
  proof (intro ballI impI)
    fix y assume "y \<in> set (sort times_in)" and "b < y"
    then have "refr < \<bar>y - b\<bar>" using assms(3,6) by auto
    then show "refr < y - b" using \<open>b < y\<close> by simp
  qed
  have bin: "b \<in> set ?out"
    using ne assms(2,5) later
    by (simp add: enforce_refractory_period_def enforce_loop_keeps)
  have "a \<notin> set ?out"
  proof
    assume "a \<in> set ?out"
    moreover have "sorted_wrt (\<lambda>x y. refr < y - x) ?out"
      by (rule enforce_refractory_period_gaps)
    ultimately have "refr < b - a \<or> refr < a - b"
      using bin assms(3) by (auto simp: sorted_wrt_iff_nth_less in_set_conv_nth)
         (metis linorder_neqE_nat order_less_irrefl)
    then show False using assms(3,4) by linarith
  qed
  with bin show ?thesis by simp
qed

text \<open>Claim C3 as amended, at the input \<open>[400, 150, 100]\<close> with threshold 120.\<close>

theorem enforce_refractory_period_keeps_later_witness:
  "150 \<in> set (enforce_refractory_period [400, 150, 100] 120)
   \<and> 100 \<notin> set (enforce_refractory_period [400, 150, 100] 120)"
proof -
  have h: "\<forall>y\<in>set [400, 150, 100 :: real].
             y \<noteq> 100 \<and> y \<noteq> 150 \<longrightarrow> 120 < \<bar>y - 100\<bar> \<and> 120 < \<bar>y - 150\<bar>"
    by simp
  show ?thesis
    by (rule enforce_refractory_period_keeps_later[OF _ _ _ _ _ h]) simp_all
qed

text \<open>
  Claim C3 as stated fails: on \<open>[100, 150]\<close> with threshold 120 the earlier time 100
  is the one removed.
\<close>

theorem enforce_refractory_period_keeps_earlier_counterexample:
  "enforce_refractory_period [100, 150] 120 = [150]
   \<and> \<not> (100 \<in> set (enforce_refractory_period [100, 150] 120)
        \<and> 150 \<notin> set (enforce_refractory_period [100, 150] 120))"
  by (simp add: eval_refr)

subsection \<open>Sequencing\<close>

lemma ebind_Inr_iff: "ebind m f = Inr y \<longleftrightarrow> (\<exists>x. m = Inr x \<and> f x = Inr y)"
  by (cases m) (simp_all add: ebind_def)

lemma ebind_Inl [simp]: "ebind (Inl e) f = Inl e"
  by (simp add: ebind_def)

lemma ebind_Inr [simp]: "ebind (Inr x) f = f x"
  by (simp add: ebind_def)

lemma ebind_InrE:
  assumes "ebind m f = Inr y"
  obtains x where "m = Inr x" and "f x = Inr y"
  using assms by (cases m) (simp_all add: ebind_def)

lemma sequence_err_Inr: "sequence_err (map Inr xs) = Inr xs"
  by (induction xs) simp_all

subsection \<open>Labels of the firing generator\<close>

text \<open>
  Claim C1 fails on the code. In a run without a seed, with three units, a sampling
  frequency of 30000 and a duration of 0.01, in which the three units draw the
  candidate times 150.5, 180.4 and 210.3 and each keeps its candidate, every unit
  contributes one spike, and the three spikes carry the label 1: line 125 fills
  \<^verbatim>\<open>labels0\<close> with ones whatever \<^verbatim>\<open>unit_id\<close> is. The set of labels is \<open>{1}\<close>, neither
  \<open>{0, 1, 2}\<close> nor \<open>{1, 2, 3}\<close>.
\<close>

theorem synthesize_random_firings_labels_example:
  "synthesize_random_firings counter_rng 3 30000 (PyFloat (1 / 100)) None 0
     = Inr (([150, 180, 210], [1, 1, 1]), 4)"
  by code_simp

text \<open>
  Claim C2 fails on the code for the same reason. Without a seed the two units fire at
  the samples 150 and 180; both times carry the label 1 and are 30 samples apart, below
  the threshold of \<open>4 / 1000 * 30000 = 120\<close> samples, which the repair enforces within
  one unit only.
\<close>

theorem synthesize_random_firings_gap_example:
  "synthesize_random_firings counter_rng 2 30000 (PyFloat (1 / 100)) None 0
     = Inr (([150, 180], [1, 1]), 3)"
  by code_simp

text \<open>
  The two runs above are not special: whatever the generator draws, every label of a
  returned spike train is 1.
\<close>

lemma unit_firings_labels:
  assumes "unit_firings R sf N population seeds unit_id g = Inr ((ts, ls), g')"
  shows "ls = replicate (length ts) 1"
proof -
  obtain u g1 where r: "rng_rand R g (nat population) = (u, g1)"
    by (cases "rng_rand R g (nat population)")
  define cand where "cand = map (\<lambda>x. x * (real_of_int N - 1) + 1) u"
  define pool where "pool = cand @ map2 (+) cand
          (rand_distr2 R (4 / 1000 * sf) (4 / 1000 * sf * 20) (length cand) (seeds ! unit_id))"
  define inds where "inds = fst (rng_choice R (rng_seed R (seeds ! unit_id))
                             (length pool) (length pool div 2))"
  define fin where "fin = (\<lambda>times0.
      Inr ((map trunc (enforce_refractory_period
                         (filter (\<lambda>t. 0 \<le> t \<and> t < real_of_int N) times0) (4 / 1000 * sf)),
            replicate (length (enforce_refractory_period
                         (filter (\<lambda>t. 0 \<le> t \<and> t < real_of_int N) times0) (4 / 1000 * sf)))
              (1::int)), g1) :: py_error + _)"
  have body: "(if population < 0 then Inl ValueError else ebind (take_indices pool inds) fin)
                = Inr ((ts, ls), g')"
    using assms unfolding unit_firings_def Let_def r prod.case
      cand_def[symmetric] pool_def[symmetric] inds_def[symmetric] fin_def[symmetric] .
  then have "\<not> population < 0" by (cases "population < 0") simp_all
  with body have "ebind (take_indices pool inds) fin = Inr ((ts, ls), g')" by simp
  then obtain t where "fin t = Inr ((ts, ls), g')" by (rule ebind_InrE)
  then show ?thesis by (auto simp: fin_def)
qed


lemma firing_loop_labels:
  assumes "firing_loop R sf N population seeds units g = Inr (tls, g')"
  shows "\<forall>tl0\<in>set tls. snd tl0 = replicate (length (fst tl0)) 1"
  using assms
proof (induction units arbitrary: g tls g')
  case Nil
  then show ?case by simp
next
  case (Cons unit_id rest)
  from Cons.prems have "ebind (unit_firings R sf N population seeds unit_id g) (\<lambda>(tl0, g').
     ebind (firing_loop R sf N population seeds rest g') (\<lambda>(tls, g'').
     Inr (tl0 # tls, g''))) = Inr (tls, g')"
    by (simp only: firing_loop.simps)
  then obtain r1 where u1: "unit_firings R sf N population seeds unit_id g = Inr r1"
    and c1: "(case r1 of (tl0, g1) \<Rightarrow>
               ebind (firing_loop R sf N population seeds rest g1) (\<lambda>(tls, g'').
                 Inr (tl0 # tls, g''))) = (Inr (tls, g') :: py_error + _)"
    by (rule ebind_InrE) (rule that)
  obtain tl0 g1 where r1: "r1 = (tl0, g1)" by (cases r1)
  from c1 r1 have "ebind (firing_loop R sf N population seeds rest g1) (\<lambda>(tls, g'').
                 Inr (tl0 # tls, g'')) = Inr (tls, g')"
    by simp
  then obtain r2 where l2: "firing_loop R sf N population seeds rest g1 = Inr r2"
    and c2: "(case r2 of (tls', g'') \<Rightarrow> Inr (tl0 # tls', g'')) = (Inr (tls, g') :: py_error + _)"
    by (rule ebind_InrE) (rule that)
  obtain tls' g2 where r2: "r2 = (tls', g2)" by (cases r2)
  from c2 r2 have t: "tls = tl0 # tls'" and "g' = g2" by simp_all
  have u: "unit_firings R sf N population seeds unit_id g = Inr (tl0, g1)"
    using u1 r1 by simp
  have l: "firing_loop R sf N population seeds rest g1 = Inr (tls', g')"
    using l2 r2 \<open>g' = g2\<close> by simp
  have "snd tl0 = replicate (length (fst tl0)) 1"
    using unit_firings_labels[of R sf N population seeds unit_id g "fst tl0" "snd tl0" g1] u
    by simp
  then show ?case using Cons.IH[OF l] t by simp
qed

lemma set_argsort: "set (argsort xs) = {..<length xs}"
proof -
  have a: "snd ` set (zip xs [0..<length xs]) = set (map snd (zip xs [0..<length xs]))"
    by (simp only: set_map)
  have b: "map snd (zip xs [0..<length xs]) = [0..<length xs]"
    by (rule map_snd_zip) simp
  have "set (argsort xs) = snd ` set (zip xs [0..<length xs])"
    by (simp add: argsort_def)
  then show ?thesis unfolding a b by auto
qed

lemma length_argsort: "length (argsort xs) = length xs"
  by (simp add: argsort_def)

lemma synthesize_random_firings_Inr:
  assumes "synthesize_random_firings R K sf duration seed g = Inr ((tms, labels), g')"
  shows "\<exists>seeds g1 N population tls.
           firing_loop R sf N population seeds [0..<K] g1 = Inr (tls, g')
         \<and> tms = map (nth (concat (map fst tls))) (argsort (concat (map fst tls)))
         \<and> labels = map (nth (concat (map snd tls))) (argsort (concat (map fst tls)))"
proof -
  obtain seeds g1 where s:
    "(case seed of
        Some s \<Rightarrow> (fst (rng_randint R (rng_seed R s) 0 2147483647 K), rng_seed R s)
      | None \<Rightarrow> rng_randint R g 0 2147483647 K) = (seeds, g1)"
    by (cases "case seed of
        Some s \<Rightarrow> (fst (rng_randint R (rng_seed R s) 0 2147483647 K), rng_seed R s)
      | None \<Rightarrow> rng_randint R g 0 2147483647 K")
  define fin where "fin = (\<lambda>(tls :: (int list \<times> int list) list, g2 :: 'a).
       if tls = [] then Inl ValueError
       else Inr ((map (nth (concat (map fst tls))) (argsort (concat (map fst tls))),
                  map (nth (concat (map snd tls))) (argsort (concat (map fst tls)))), g2))"
  have e: "ebind (py_times_float duration sf) (\<lambda>x.
             if sf = 0 \<and> 0 < K then Inl NanResult
             else ebind (firing_loop R sf (trunc x) \<lceil>3 / sf * real_of_int (trunc x)\<rceil>
                           seeds [0..<K] g1) fin) = Inr ((tms, labels), g')"
    using assms unfolding synthesize_random_firings_def Let_def s fin_def prod.case .
  then obtain x where body: "(if sf = 0 \<and> 0 < K then Inl NanResult
             else ebind (firing_loop R sf (trunc x) \<lceil>3 / sf * real_of_int (trunc x)\<rceil>
                           seeds [0..<K] g1) fin) = Inr ((tms, labels), g')"
    unfolding ebind_Inr_iff by blast
  then have nz: "\<not> (sf = 0 \<and> 0 < K)" by (cases "sf = 0 \<and> 0 < K") simp_all
  with body have "ebind (firing_loop R sf (trunc x) \<lceil>3 / sf * real_of_int (trunc x)\<rceil>
                           seeds [0..<K] g1) fin = Inr ((tms, labels), g')"
    by simp
  then obtain r where l: "firing_loop R sf (trunc x) \<lceil>3 / sf * real_of_int (trunc x)\<rceil>
                           seeds [0..<K] g1 = Inr r"
    and f: "fin r = Inr ((tms, labels), g')"
    unfolding ebind_Inr_iff by blast
  obtain tls g2 where r: "r = (tls, g2)" by (cases r)
  from f r have ne: "tls \<noteq> []" by (cases "tls = []") (simp_all add: fin_def)
  with f r have "g2 = g'"
    and "tms = map (nth (concat (map fst tls))) (argsort (concat (map fst tls)))"
    and "labels = map (nth (concat (map snd tls))) (argsort (concat (map fst tls)))"
    by (simp_all add: fin_def)
  with l r show ?thesis by blast
qed

lemma synthesize_random_firings_labels:
  assumes "synthesize_random_firings R K sf duration seed g = Inr ((tms, labels), g')"
  shows "labels = replicate (length tms) 1"
proof -
  from synthesize_random_firings_Inr[OF assms] obtain seeds g1 N population tls where
    l: "firing_loop R sf N population seeds [0..<K] g1 = Inr (tls, g')"
    and tms: "tms = map (nth (concat (map fst tls))) (argsort (concat (map fst tls)))"
    and labels: "labels = map (nth (concat (map snd tls))) (argsort (concat (map fst tls)))"
    by blast
  let ?ts = "concat (map fst tls)" and ?ls = "concat (map snd tls)"
  have each: "\<forall>tl0\<in>set tls. snd tl0 = replicate (length (fst tl0)) 1"
    using firing_loop_labels[OF l] .
  have ls: "?ls = replicate (length ?ts) 1"
    using each by (induction tls) (simp_all add: replicate_add)
  have "labels = map (\<lambda>i. 1) (argsort ?ts)"
    unfolding labels
  proof (rule map_cong[OF refl])
    fix i assume "i \<in> set (argsort ?ts)"
    then have "i < length ?ts" by (simp add: set_argsort)
    then show "?ls ! i = 1" by (simp add: ls)
  qed
  then show ?thesis by (simp add: tms map_replicate_const length_argsort)
qed

subsection \<open>Neuron placement\<close>

text \<open>
  Claim C5 fails on the code for a single unit: the guard of line 221 is \<^verbatim>\<open>K > 0\<close>,
  so with \<open>K = 1\<close> line 222 divides by \<open>K - 1 = 0\<close> and raises, for every channel
  count and every geometry.
\<close>

theorem get_default_neuron_locations_single_unit:
  "get_default_neuron_locations M 1 geometry = Inl ZeroDivisionError"
  by (simp add: get_default_neuron_locations_def neuron_location_def)

text \<open>
  The other half of the claim holds: with one channel and at least two units every
  unit is placed on the channel.
\<close>

lemma neuron_location_single_channel:
  assumes "2 \<le> K"
  shows "neuron_location 1 K [c] k = Inr c"
proof -
  have "map2 (\<lambda>a b. (1 - 1) * a + 1 * b) c c = c" for c :: "real list"
    by (induction c) simp_all
  then show ?thesis
    using assms
    by (simp add: neuron_location_def trunc_def geometry_column_def np_index_def)
qed

lemma get_default_neuron_locations_single_channel:
  assumes "2 \<le> K"
  shows "get_default_neuron_locations 1 K [c] = Inr (replicate (nat K) c)"
proof -
  have "map (neuron_location 1 K [c]) [1..K] = map Inr (map (\<lambda>k. c) [1..K])"
    using assms by (simp add: neuron_location_single_channel)
  moreover have "\<not> K < 0" using assms by simp
  ultimately have "get_default_neuron_locations 1 K [c] = Inr (map (\<lambda>k. c) [1..K])"
    unfolding get_default_neuron_locations_def by (simp only: sequence_err_Inr if_False)
  then show ?thesis by (simp add: map_replicate_const)
qed

subsection \<open>Per-segment durations\<close>

text \<open>
  Claim C6 fails on the code. A list of two floats passes the assertions of lines 50
  to 52, but line 64 hands the list itself to \<^verbatim>\<open>synthesize_random_firings\<close>, whose
  line 102 multiplies it by the sampling frequency: the call raises \<^verbatim>\<open>TypeError\<close> and
  no segment is produced.
\<close>

theorem toy_example_duration_list:
  "toy_example R (PyList [PyFloat d1, PyFloat d2]) num_units sampling_frequency 2 upsamplefac
     seed waveforms g = Inl TypeError"
  by (simp add: toy_example_def check_durations_def numeral_2_eq_2 toy_segment_def
        synthesize_random_firings_def py_times_float_def Let_def split: option.splits prod.splits)

subsection \<open>A waveform whose last segment has one sample\<close>

text \<open>
  A segment of two samples runs from the first amplitude to the second. A segment of
  one sample and duration zero is nan: line 242 computes \<open>exp (0 / 0)\<close>.
\<close>

lemma exp_growth_two:
  assumes "dur2 \<noteq> 0"
  shows "exp_growth x y 2 dur2 = Inr [Finite x, Finite y]"
proof -
  define E where "E = exp (1 / dur2)"
  have "E \<noteq> 1" using assms by (simp add: E_def)
  then have nz: "E - 1 \<noteq> 0" by simp
  define s0 where "s0 = 1 / (E - 1) * (y - x)"
  define s1 where "s1 = E / (E - 1) * (y - x)"
  have "s1 - s0 = (E * (y - x) - 1 * (y - x)) / (E - 1)"
    unfolding s0_def s1_def by (simp only: times_divide_eq_left diff_divide_distrib)
  also have "E * (y - x) - 1 * (y - x) = (E - 1) * (y - x)"
    by (simp only: left_diff_distrib)
  also have "(E - 1) * (y - x) / (E - 1) = y - x"
    using nz by simp
  finally have s: "s1 = s0 + (y - x)" by simp
  have t: "map real [0..<nat 2] = [0, 1]" by (simp add: upt_rec numeral_2_eq_2)
  have Y0: "map (\<lambda>t. fexp (fdiv (Finite t) (Finite dur2))) [0, 1] = [Finite 1, Finite E]"
    using assms by (simp add: E_def)
  have d: "fsub (last [Finite 1, Finite E]) (hd [Finite 1, Finite E]) = Finite (E - 1)"
    by (simp add: fsub_def)
  have Y1: "map (\<lambda>y'. fmul (fdiv y' (Finite (E - 1))) (Finite (y - x))) [Finite 1, Finite E]
              = [Finite s0, Finite s1]"
    using nz by (simp add: s0_def s1_def)
  have Y2: "map (\<lambda>y'. fadd (fsub y' (hd [Finite s0, Finite s1])) (Finite x))
              [Finite s0, Finite s1] = [Finite x, Finite y]"
    by (simp add: fsub_def s)
  have "(2::int) \<le> 0 \<longleftrightarrow> False" by simp
  then show ?thesis
    unfolding exp_growth_def Let_def t Y0 d Y1 Y2 by simp
qed

lemma exp_growth_one_zero: "exp_growth x y 1 0 = Inr [NaN]"
  by (simp add: exp_growth_def fsub_def signed_inf_def)

lemma exp_decay_two:
  "dur2 \<noteq> 0 \<Longrightarrow> exp_decay x y 2 dur2 = Inr [Finite x, Finite y]"
  by (simp add: exp_decay_def exp_growth_two ebind_def)

lemma exp_decay_one_zero: "exp_decay x y 1 0 = Inr [NaN]"
  by (simp add: exp_decay_def exp_growth_one_zero ebind_def)

lemma upto_smooth: "[- 3..3] = [- 3, - 2, - 1, 0, 1, 2, 3 :: int]"
  by (simp add: upto.simps)

lemma upt_5: "[0..<5] = [0, 1, 2, 3, 4]"
  by (simp add: upt_rec)

lemma upt_6: "[0..<6] = [0, 1, 2, 3, 4, 5]"
  by (simp add: upt_rec)

lemma smooth_nan:
  "smooth_it [Finite a, Finite b, Finite c, NaN, Finite d] 3 = [NaN, NaN, NaN, NaN, NaN]"
  unfolding smooth_it_def upto_smooth np_roll_def by (simp add: upt_5)

lemma linspace_nan: "np_linspace NaN NaN 5 = [NaN, NaN, NaN, NaN, NaN]"
  unfolding np_linspace_def by (simp add: upt_5 fsub_def)

lemma timepoints_example:
  "map np_round (0 # map (\<lambda>c. c - 1) (cumsum [2, 1, 1, 0])) = [0, 1, 2, 3, 3]"
  by (simp add: cumsum_def np_round_def upt_rec[of 0] upt_rec[of 1] upt_rec[of 2] upt_rec[of 3])

lemma argmax_nan: "np_argmax [NaN, NaN, NaN, NaN, NaN, Finite 0] = Inr 0"
  by (simp add: np_argmax_def upt_6)

lemma roll_example:
  "np_roll [NaN, NaN, NaN, NaN, NaN, Finite 0] 3 = [NaN, NaN, Finite 0, NaN, NaN, NaN]"
  by (simp add: np_roll_def upt_6)

text \<open>
  Claim C8. \<^verbatim>\<open>synthesize_single_waveform(N=6, durations=[2, 1, 1, 1])\<close> with the
  default amplitudes \<open>[0.5, 10, -1, 0]\<close>: the durations sum to \<open>5 \<ge> N - 2\<close>, so the last
  one becomes \<open>4 - 4 = 0\<close>; the time points are \<open>[0, 1, 2, 3, 3]\<close>, the last segment is
  the single sample \<open>exp_decay(-1, 0, 1, 0.0) = [nan]\<close>, and the curve before smoothing
  is \<open>[0, 0.5, 10, nan, 0]\<close>. Smoothing sums seven shifts of five samples, so every
  sample becomes nan. After padding with one zero, \<^verbatim>\<open>np.argmax\<close> returns the first
  nan, index 0, and the array is rolled by 3. The function returns, without raising,
  an array of length 6 whose sample at index \<open>\<lfloor>N / 2\<rfloor> = 3\<close> is nan and whose only
  number is the padding zero at index 2: no sample of maximum absolute value sits at
  index 3.
\<close>

theorem synthesize_single_waveform_nan_example:
  "synthesize_single_waveform 6 (2, 1, 1, 1) (1 / 2, 10, - 1, 0)
     = Inr [NaN, NaN, Finite 0, NaN, NaN, NaN]"
proof -
  have d: "(if real_of_int (6 - 2) \<le> sum_list [2, 1, 1, 1 :: real]
            then [2, 1, 1, 1][3 := real_of_int (6 - 2) - sum_list (take 3 [2, 1, 1, 1])]
            else [2, 1, 1, 1]) = [2, 1, 1, 0 :: real]"
    by (simp add: numeral_3_eq_3)
  show ?thesis
    unfolding synthesize_single_waveform_def prod.case Let_def d timepoints_example
    by (simp add: exp_growth_two exp_decay_two exp_decay_one_zero assign_slice_def
          slice_bound_def smooth_nan linspace_nan argmax_nan roll_example fsub_def ebind_def)
qed

subsection \<open>Normalisation of the templates\<close>

lemma pick_scaled_row:
  "\<forall>col\<in>set row. k < length col \<Longrightarrow>
     map (\<lambda>col. col ! k) (map (map f) row) = map f (map (\<lambda>col. col ! k) row)"
  by (induction row) simp_all

lemma pick_scaled:
  "\<forall>row\<in>set E. \<forall>col\<in>set row. k < length col \<Longrightarrow>
     concat (map (map (\<lambda>col. col ! k)) (map (map (map f)) E))
       = map f (concat (map (map (\<lambda>col. col ! k)) E))"
proof (induction E)
  case Nil
  then show ?case by simp
next
  case (Cons row E)
  then have "map (\<lambda>col. col ! k) (map (map f) row) = map f (map (\<lambda>col. col ! k) row)"
    by (intro pick_scaled_row) simp
  then show ?case using Cons by simp
qed

lemma unit_entries_scaled:
  assumes "tensor_wf WW" and "k < dim_K WW"
  shows "unit_entries (WW\<lparr>entries := map (map (map f)) (entries WW)\<rparr>) k
           = map f (unit_entries WW k)"
proof -
  have "\<forall>row\<in>set (entries WW). \<forall>col\<in>set row. k < length col"
    using assms by (auto simp: tensor_wf_def)
  then have "concat (map (map (\<lambda>col. col ! k)) (map (map (map f)) (entries WW)))
               = map f (concat (map (map (\<lambda>col. col ! k)) (entries WW)))"
    by (rule pick_scaled)
  moreover have "entries (WW\<lparr>entries := map (map (map f)) (entries WW)\<rparr>)
                   = map (map (map f)) (entries WW)"
    by simp
  ultimately show ?thesis unfolding unit_entries_def by (simp only:)
qed

lemma unit_entries_nonempty:
  assumes "tensor_wf WW" and "0 < dim_M WW" and "0 < dim_T WW"
  shows "unit_entries WW k \<noteq> []"
proof -
  obtain row rest where e: "entries WW = row # rest"
    using assms(1,2) by (cases "entries WW") (auto simp: tensor_wf_def)
  then have "length row = dim_T WW" using assms(1) by (auto simp: tensor_wf_def)
  then have "row \<noteq> []" using assms(3) by auto
  then show ?thesis using e by (simp add: unit_entries_def)
qed

lemma Max_scaled:
  fixes xs :: "real list"
  assumes "xs \<noteq> []" and "0 \<le> c"
  shows "Max (set (map (\<lambda>x. x * c) xs)) = Max (set xs) * c"
proof -
  have "mono (\<lambda>y. y * c)" using assms(2) by (intro monoI) (simp add: mult_right_mono)
  then have "Max (set xs) * c = Max ((\<lambda>y. y * c) ` set xs)"
    using assms(1) by (intro mono_Max_commute) simp_all
  then show ?thesis by simp
qed


text \<open>
  Claim C4, as the code has it. For a well-formed tensor with at least one unit on
  which the normalisation returns, the mean over units of the peak absolute amplitude
  of the result is the absolute value of the configured average peak amplitude: a
  maximum of absolute values cannot carry the sign.
\<close>

theorem normalize_waveforms_mean_peak:
  assumes "tensor_wf WW" and "0 < dim_K WW"
    and "normalize_waveforms WW average_peak_amplitude = Inr WW'"
  shows "mean_peak WW' = Inr \<bar>average_peak_amplitude\<bar>"
proof -
  define a where "a = average_peak_amplitude"
  define K where "K = dim_K WW"
  define pk where "pk = (\<lambda>k. Max (set (map abs (unit_entries WW k))))"
  from assms(3) obtain ps where ps: "peaks WW = Inr ps"
    and rest: "(if dim_K WW = 0 then Inr WW
                else if np_mean ps = 0 then Inl NanResult
                else Inr (WW\<lparr>entries := map (map (map (\<lambda>x. x / np_mean ps * a))) (entries WW)\<rparr>))
               = Inr WW'"
    unfolding normalize_waveforms_def ebind_Inr_iff a_def by blast
  define m where "m = np_mean ps"
  have dims: "0 < dim_M WW" "0 < dim_T WW"
    using ps assms(2) by (auto simp: peaks_def split: if_splits)
  have psdef: "ps = map pk [0..<K]"
    using ps dims by (simp add: peaks_def pk_def K_def)
  have mnz: "m \<noteq> 0"
    using rest assms(2) unfolding m_def by (cases "np_mean ps = 0") simp_all
  have WW': "WW' = WW\<lparr>entries := map (map (map (\<lambda>x. x / m * a))) (entries WW)\<rparr>"
    using rest assms(2) mnz unfolding m_def by simp
  have pk_nonneg: "0 \<le> pk k" for k
  proof -
    have ne: "unit_entries WW k \<noteq> []" using assms(1) dims by (rule unit_entries_nonempty)
    then obtain x xs where "unit_entries WW k = x # xs" by (cases "unit_entries WW k") auto
    then have "\<bar>x\<bar> \<le> pk k" unfolding pk_def by (intro Max_ge) simp_all
    then show ?thesis by linarith
  qed
  have "0 \<le> sum_list ps" unfolding psdef by (intro sum_list_nonneg) (auto simp: pk_nonneg)
  then have "0 \<le> m" unfolding m_def np_mean_def by simp
  with mnz have mpos: "0 < m" by simp
  define c where "c = \<bar>a\<bar> / m"
  have cnn: "0 \<le> c" using mpos by (simp add: c_def)
  have pk': "Max (set (map abs (unit_entries WW' k))) = pk k * c" if "k < K" for k
  proof -
    have ne: "map abs (unit_entries WW k) \<noteq> []"
      using unit_entries_nonempty[OF assms(1) dims] by simp
    have "unit_entries WW' k = map (\<lambda>x. x / m * a) (unit_entries WW k)"
      unfolding WW' using assms(1) that unfolding K_def by (rule unit_entries_scaled)
    then have "map abs (unit_entries WW' k) = map (\<lambda>x. x * c) (map abs (unit_entries WW k))"
      using mpos by (simp add: c_def abs_mult abs_divide)
    then show ?thesis using Max_scaled[OF ne cnn] by (simp add: pk_def)
  qed
  have "peaks WW' = Inr (map (\<lambda>k. Max (set (map abs (unit_entries WW' k)))) [0..<K])"
    using dims by (simp add: peaks_def WW' K_def)
  also have "map (\<lambda>k. Max (set (map abs (unit_entries WW' k)))) [0..<K]
               = map (\<lambda>k. pk k * c) [0..<K]"
  proof (rule map_cong[OF refl])
    fix k assume "k \<in> set [0..<K]"
    then have "k < K" by simp
    then show "Max (set (map abs (unit_entries WW' k))) = pk k * c" by (rule pk')
  qed
  also have "\<dots> = map (\<lambda>p. p * c) ps" by (simp add: psdef comp_def)
  finally have p': "peaks WW' = Inr (map (\<lambda>p. p * c) ps)" .
  have lenps: "length ps = K" by (simp add: psdef)
  have Kpos: "0 < K" using assms(2) by (simp add: K_def)
  have "sum_list (map (\<lambda>p. p * c) ps) = sum_list ps * c"
    by (simp add: sum_list_mult_const)
  then have "np_mean (map (\<lambda>p. p * c) ps) = m * c"
    by (simp add: np_mean_def m_def)
  also have "\<dots> = \<bar>a\<bar>" using mpos by (simp add: c_def)
  finally show ?thesis using p' by (simp add: mean_peak_def a_def)
qed

text \<open>
  Claim C4 as amended, at a tensor of one channel, two time offsets and two units with
  the amplitude -100. The peaks of the two units are 3 and 2, their mean is 5/2, and
  the normalised tensor has the peaks 120 and 80, of mean 100.
\<close>

theorem normalize_waveforms_mean_peak_witness:
  "normalize_waveforms two_unit_tensor (- 100)
      = Inr \<lparr> dim_M = 1, dim_T = 2, dim_K = 2, entries = [[[- 40, 80], [120, - 40]]] \<rparr>
   \<and> peaks two_unit_tensor = Inr [3, 2]
   \<and> mean_peak \<lparr> dim_M = 1, dim_T = 2, dim_K = 2, entries = [[[- 40, 80], [120, - 40]]] \<rparr>
       = Inr \<bar>- 100\<bar>"
proof -
  have wf: "tensor_wf two_unit_tensor" by (simp add: tensor_wf_def two_unit_tensor_def)
  have k: "0 < dim_K two_unit_tensor" by (simp add: two_unit_tensor_def)
  have n: "normalize_waveforms two_unit_tensor (- 100)
      = Inr \<lparr> dim_M = 1, dim_T = 2, dim_K = 2, entries = [[[- 40, 80], [120, - 40]]] \<rparr>"
    by code_simp
  have p: "peaks two_unit_tensor = Inr [3, 2]" by code_simp
  from normalize_waveforms_mean_peak[OF wf k n] n p show ?thesis by simp
qed

text \<open>
  Claim C4 as stated fails: on the same tensor of two units, with an average peak
  amplitude of -100, the mean peak absolute amplitude of the normalised tensor is 100,
  not -100.
\<close>

theorem normalize_waveforms_signed_counterexample:
  "ebind (normalize_waveforms two_unit_tensor (- 100)) mean_peak = Inr 100
   \<and> ebind (normalize_waveforms two_unit_tensor (- 100)) mean_peak \<noteq> Inr (- 100)"
  by code_simp

subsection \<open>Segments of a seeded run\<close>

lemma synthesize_random_firings_seeded:
  "synthesize_random_firings R K sf duration (Some s) g
     = synthesize_random_firings R K sf duration (Some s) g0"
  by (simp add: synthesize_random_firings_def)

lemma toy_segment_seeded:
  "toy_segment R duration K sf uf (Some s) W unit_ids g
     = toy_segment R duration K sf uf (Some s) W unit_ids g0"
  unfolding toy_segment_def
  by (subst synthesize_random_firings_seeded[of R K sf duration s g g0]) (rule refl)

lemma toy_segments_seeded:
  assumes "toy_segments R duration K sf uf (Some s) W unit_ids n g = Inr (segs, g')"
  shows "length segs = n
       \<and> (\<forall>seg\<in>set segs. \<exists>gx. toy_segment R duration K sf uf (Some s) W unit_ids g0 = Inr (seg, gx))"
  using assms
proof (induction n arbitrary: g segs g')
  case 0
  then show ?case by simp
next
  case (Suc n)
  from Suc.prems obtain r1 where
    a: "toy_segment R duration K sf uf (Some s) W unit_ids g = Inr r1"
    and b: "(case r1 of (seg, g1) \<Rightarrow>
              ebind (toy_segments R duration K sf uf (Some s) W unit_ids n g1)
                (\<lambda>(segs, g''). Inr (seg # segs, g''))) = Inr (segs, g')"
    unfolding toy_segments.simps by (rule ebind_InrE) (rule that)
  obtain seg g1 where r1: "r1 = (seg, g1)" by (cases r1)
  from b r1 have "ebind (toy_segments R duration K sf uf (Some s) W unit_ids n g1)
                (\<lambda>(segs, g''). Inr (seg # segs, g'')) = Inr (segs, g')"
    by simp
  then obtain r2 where
    c: "toy_segments R duration K sf uf (Some s) W unit_ids n g1 = Inr r2"
    and d: "(case r2 of (segs', g'') \<Rightarrow> Inr (seg # segs', g''))
              = (Inr (segs, g') :: py_error + _)"
    by (rule ebind_InrE) (rule that)
  obtain segs' g2 where r2: "r2 = (segs', g2)" by (cases r2)
  from d r2 have segs: "segs = seg # segs'" and "g' = g2" by simp_all
  have ih: "length segs' = n
       \<and> (\<forall>seg\<in>set segs'. \<exists>gx. toy_segment R duration K sf uf (Some s) W unit_ids g0 = Inr (seg, gx))"
    using Suc.IH c r2 by blast
  have "toy_segment R duration K sf uf (Some s) W unit_ids g0 = Inr (seg, g1)"
    using a r1 toy_segment_seeded[of R duration K sf uf s W unit_ids g0 g] by simp
  then show ?case using ih segs by auto
qed


lemma noise_background_seeded:
  "fst (noise_background R M N noise_level (Some s) g)
     = fst (noise_background R M N noise_level (Some s) g0)"
  by (simp add: noise_background_def split: prod.splits)

text \<open>
  Claim C10. With a seed, every segment is computed from the same generator states:
  \<^verbatim>\<open>synthesize_random_firings\<close> reseeds the global generator and
  \<^verbatim>\<open>synthesize_timeseries\<close> draws its noise from a fresh generator of the seed. So
  when \<^verbatim>\<open>toy_example\<close> returns, any two segments have the same spike times, labels
  and traces, and the noise background does not depend on the incoming state.
\<close>

theorem toy_example_segments_identical:
  assumes "toy_example R duration num_units sampling_frequency num_segments upsamplefac
             (Some s) waveforms g = Inr ((traces_list, times_list, labels_list), g')"
    and "i < num_segments" and "j < num_segments"
  shows "times_list ! i = times_list ! j \<and> labels_list ! i = labels_list ! j
       \<and> traces_list ! i = traces_list ! j
       \<and> fst (noise_background R M N noise_level (Some s) g1)
           = fst (noise_background R M N noise_level (Some s) g2)"
proof -
  define d where "d = (case duration of PyInt i \<Rightarrow> PyFloat (real_of_int i) | _ \<Rightarrow> duration)"
  define us where "us = map int [0..<num_units]"
  from assms(1) have "ebind (check_durations d num_segments) (\<lambda>durations.
           ebind (toy_segments R d num_units sampling_frequency upsamplefac (Some s) waveforms us
                    num_segments g)
             (\<lambda>(segs, g').
                Inr ((map (\<lambda>(times, labels, traces). traces) segs,
                      map (\<lambda>(times, labels, traces). times) segs,
                      map (\<lambda>(times, labels, traces). labels) segs), g')))
         = Inr ((traces_list, times_list, labels_list), g')"
    unfolding toy_example_def Let_def d_def[symmetric] us_def[symmetric] .
  then obtain durations :: "pyval list" where "ebind (toy_segments R d num_units sampling_frequency upsamplefac
                    (Some s) waveforms us num_segments g)
             (\<lambda>(segs, g').
                Inr ((map (\<lambda>(times, labels, traces). traces) segs,
                      map (\<lambda>(times, labels, traces). times) segs,
                      map (\<lambda>(times, labels, traces). labels) segs), g'))
         = Inr ((traces_list, times_list, labels_list), g')"
    by (rule ebind_InrE) (rule that)
  then obtain r where
    l: "toy_segments R d num_units sampling_frequency upsamplefac (Some s) waveforms us
          num_segments g = Inr r"
    and f: "(case r of (segs, g') \<Rightarrow>
               Inr ((map (\<lambda>(times, labels, traces). traces) segs,
                     map (\<lambda>(times, labels, traces). times) segs,
                     map (\<lambda>(times, labels, traces). labels) segs), g'))
            = (Inr ((traces_list, times_list, labels_list), g') :: py_error + _)"
    by (rule ebind_InrE) (rule that)
  obtain segs gx where r: "r = (segs, gx)" by (cases r)
  from f r have tr: "traces_list = map (\<lambda>(times, labels, traces). traces) segs"
    and tm: "times_list = map (\<lambda>(times, labels, traces). times) segs"
    and lb: "labels_list = map (\<lambda>(times, labels, traces). labels) segs"
    by simp_all
  from toy_segments_seeded[OF l[unfolded r], of g] have len: "length segs = num_segments"
    and each: "\<forall>seg\<in>set segs. \<exists>gx. toy_segment R d num_units sampling_frequency upsamplefac
                 (Some s) waveforms us g = Inr (seg, gx)"
    by blast+
  have "segs ! i \<in> set segs" "segs ! j \<in> set segs" using assms(2,3) len by simp_all
  with each obtain gi gj where
    "toy_segment R d num_units sampling_frequency upsamplefac (Some s) waveforms us g
       = Inr (segs ! i, gi)"
    and "toy_segment R d num_units sampling_frequency upsamplefac (Some s) waveforms us g
       = Inr (segs ! j, gj)"
    by meson
  then have "segs ! i = segs ! j" by simp
  then have "times_list ! i = times_list ! j \<and> labels_list ! i = labels_list ! j
       \<and> traces_list ! i = traces_list ! j"
    using assms(2,3) len by (simp add: tr tm lb)
  then show ?thesis using noise_background_seeded[of R M N noise_level s g1 g2] by simp
qed

text \<open>
  Claim C10 on two segments of 12 samples with two units and the seed 0.
\<close>

theorem toy_example_segments_identical_witness:
  "toy_example counter_rng (PyFloat (6 / 5)) 2 10 2 2 (Some 0) toy_waveforms 5
     = Inr (([[[- 10, - 10, - 10, - 10, - 9, - 6, - 7, - 10, - 10, - 10, - 10, - 10]],
              [[- 10, - 10, - 10, - 10, - 9, - 6, - 7, - 10, - 10, - 10, - 10, - 10]]],
             [[5, 6], [5, 6]], [[1, 1], [1, 1]]), 2)
   \<and> [[5, 6], [5, 6 :: int]] ! 0 = [[5, 6], [5, 6]] ! 1"
proof -
  have e: "toy_example counter_rng (PyFloat (6 / 5)) 2 10 2 2 (Some 0) toy_waveforms 5
     = Inr (([[[- 10, - 10, - 10, - 10, - 9, - 6, - 7, - 10, - 10, - 10, - 10, - 10]],
              [[- 10, - 10, - 10, - 10, - 9, - 6, - 7, - 10, - 10, - 10, - 10, - 10]]],
             [[5, 6], [5, 6]], [[1, 1], [1, 1]]), 2)"
    by code_simp
  have i: "(0::nat) < 2" and j: "(1::nat) < 2" by simp_all
  from toy_example_segments_identical[OF e i j] e show ?thesis by blast
qed

subsection \<open>Spikes outside the recording\<close>

lemma same_outside_refl: "same_outside P X X"
  by (simp add: same_outside_def)

lemma same_outside_trans:
  "same_outside P X X' \<Longrightarrow> same_outside P X' X'' \<Longrightarrow> same_outside P X X''"
  by (simp add: same_outside_def)

lemma add_window_same_outside:
  assumes "add_window X tstart T S L = Inr X'"
    and "\<And>j. P j \<Longrightarrow> \<not> (tstart \<le> j \<and> j < tstart + T)"
  shows "same_outside P X X'"
proof -
  have X': "X' = map (\<lambda>m. map (\<lambda>j. if tstart \<le> j \<and> j < tstart + T
                                then X ! m ! j + S ! m ! (if L = 1 then 0 else j - tstart)
                                else X ! m ! j)
                         [0..<length (X ! m)])
                 [0..<length X]"
    using assms(1) by (simp add: add_window_def split: if_splits)
  have out: "(if tstart \<le> j \<and> j < tstart + T then a else b) = b" if "P j" for j and a b :: real
    using assms(2)[OF that] by (rule if_not_P)
  show ?thesis
    unfolding same_outside_def X' by (simp add: out)
qed

lemma stamp_spike_out_of_bounds:
  "\<not> spike_in_bounds T Tmid N t0 \<Longrightarrow> stamp_spike X waveform0 TT uf T Tmid N t0 = Inr X"
  unfolding stamp_spike_def spike_in_bounds_def Let_def by (rule if_not_P)

lemma stamp_spike_same_outside:
  assumes "stamp_spike X waveform0 TT uf T Tmid N t0 = Inr X'"
    and "t0 \<in> set spike_times"
  shows "same_outside (outside_windows T Tmid N spike_times) X X'"
proof (cases "spike_in_bounds T Tmid N t0")
  case False
  then have "X' = X"
    using assms(1) by (simp add: stamp_spike_out_of_bounds)
  then show ?thesis by (simp add: same_outside_refl)
next
  case True
  define tstart where "tstart = spike_window_start Tmid t0"
  have ts: "0 \<le> tstart" "tstart + int T \<le> N"
    using True by (simp_all add: spike_in_bounds_def tstart_def)
  have c: "0 \<le> spike_window_start Tmid t0 \<and> spike_window_start Tmid t0 + int T \<le> N"
    using True by (simp add: spike_in_bounds_def)
  have "\<exists>S L. stamp_spike X waveform0 TT uf T Tmid N t0
                 = add_window X (nat (spike_window_start Tmid t0)) T S L"
    unfolding stamp_spike_def Let_def if_P[OF c] by blast
  then obtain S L where a: "add_window X (nat tstart) T S L = Inr X'"
    using assms(1) unfolding tstart_def by auto
  show ?thesis
  proof (rule add_window_same_outside[OF a])
    fix j assume "outside_windows T Tmid N spike_times j"
    then have "\<not> (tstart \<le> int j \<and> int j < tstart + int T)"
      using assms(2) True by (auto simp: outside_windows_def tstart_def)
    then show "\<not> (nat tstart \<le> j \<and> j < nat tstart + T)"
      using ts(1) by linarith
  qed
qed

lemma stamp_spikes_same_outside:
  assumes "stamp_spikes X waveform0 TT uf T Tmid N times0 = Inr X'"
    and "set times0 \<subseteq> set spike_times"
  shows "same_outside (outside_windows T Tmid N spike_times) X X'"
  using assms
proof (induction times0 arbitrary: X)
  case Nil
  then show ?case by (simp add: same_outside_refl)
next
  case (Cons t0 times0)
  from Cons.prems(1) obtain X1 where
    a: "stamp_spike X waveform0 TT uf T Tmid N t0 = Inr X1"
    and b: "stamp_spikes X1 waveform0 TT uf T Tmid N times0 = Inr X'"
    by (auto simp: ebind_Inr_iff)
  have "same_outside (outside_windows T Tmid N spike_times) X X1"
    using a Cons.prems(2) by (intro stamp_spike_same_outside) auto
  moreover have "same_outside (outside_windows T Tmid N spike_times) X1 X'"
    using b Cons.prems(2) by (intro Cons.IH) auto
  ultimately show ?case by (rule same_outside_trans)
qed

lemma select_label_subset:
  assumes "select_label spike_times spike_labels k0 = Inr times0"
  shows "set times0 \<subseteq> set spike_times"
proof -
  have "times0 = map fst (filter (\<lambda>(t, l). l = k0) (zip spike_times spike_labels))"
    using assms by (simp add: select_label_def split: if_splits)
  then show ?thesis by (auto dest: set_zip_leftD)
qed

lemma stamp_units_same_outside:
  assumes "stamp_units X W uf T Tmid N spike_times spike_labels unit_ids = Inr X'"
  shows "same_outside (outside_windows T Tmid N spike_times) X X'"
  using assms
proof (induction unit_ids arbitrary: X)
  case Nil
  then show ?case by (simp add: same_outside_refl)
next
  case (Cons k0 unit_ids)
  from Cons.prems obtain k times0 X1 where
    s: "select_label spike_times spike_labels k0 = Inr times0"
    and a: "stamp_spikes X (unit_waveform W k) (dim_T W) uf T Tmid N times0 = Inr X1"
    and b: "stamp_units X1 W uf T Tmid N spike_times spike_labels unit_ids = Inr X'"
    by (auto simp: ebind_Inr_iff)
  have "same_outside (outside_windows T Tmid N spike_times) X X1"
    using a select_label_subset[OF s] by (rule stamp_spikes_same_outside)
  moreover have "same_outside (outside_windows T Tmid N spike_times) X1 X'"
    using b by (rule Cons.IH)
  ultimately show ?case by (rule same_outside_trans)
qed

lemma stamp_spikes_dropped:
  "stamp_spikes X waveform0 TT uf T Tmid N (filter (spike_in_bounds T Tmid N) times0)
     = stamp_spikes X waveform0 TT uf T Tmid N times0"
proof (induction times0 arbitrary: X)
  case Nil
  then show ?case by simp
next
  case (Cons t0 times0)
  show ?case
  proof (cases "spike_in_bounds T Tmid N t0")
    case True
    then show ?thesis using Cons.IH by simp
  next
    case False
    then have "stamp_spike X waveform0 TT uf T Tmid N t0 = Inr X"
      by (rule stamp_spike_out_of_bounds)
    then show ?thesis using False Cons.IH by simp
  qed
qed


lemma synthesize_timeseries_Inr:
  assumes "synthesize_timeseries R spike_times spike_labels unit_ids W sampling_frequency
             duration noise_level uf seed g = Inr (X, g')"
    and "py_float_times sampling_frequency duration = Inr x"
  shows "stamp_units (fst (noise_background R (dim_M W) (nat (trunc x)) noise_level seed g))
           W uf (template_length W uf) (template_mid (template_length W uf)) (trunc x)
           spike_times spike_labels unit_ids = Inr X"
proof -
  have body: "(if uf = 0 then Inl ZeroDivisionError
         else if trunc x < 0 then Inl ValueError
         else case noise_background R (dim_M W) (nat (trunc x)) noise_level seed g of
                (X, g') \<Rightarrow>
                  ebind (stamp_units X W uf (template_length W uf)
                           (template_mid (template_length W uf)) (trunc x)
                           spike_times spike_labels unit_ids)
                    (\<lambda>X'. Inr (X', g'))) = Inr (X, g')"
    using assms unfolding synthesize_timeseries_def Let_def by simp
  then have "uf \<noteq> 0" by (cases "uf = 0") simp_all
  with body have b2: "(if trunc x < 0 then Inl ValueError
         else case noise_background R (dim_M W) (nat (trunc x)) noise_level seed g of
                (X, g') \<Rightarrow>
                  ebind (stamp_units X W uf (template_length W uf)
                           (template_mid (template_length W uf)) (trunc x)
                           spike_times spike_labels unit_ids)
                    (\<lambda>X'. Inr (X', g'))) = Inr (X, g')"
    by simp
  then have "\<not> trunc x < 0" by (cases "trunc x < 0") simp_all
  obtain X0 g0 where nb: "noise_background R (dim_M W) (nat (trunc x)) noise_level seed g = (X0, g0)"
    by (cases "noise_background R (dim_M W) (nat (trunc x)) noise_level seed g")
  from b2 \<open>\<not> trunc x < 0\<close> have "ebind (stamp_units X0 W uf (template_length W uf)
                           (template_mid (template_length W uf)) (trunc x)
                           spike_times spike_labels unit_ids)
                    (\<lambda>X'. Inr (X', g0)) = Inr (X, g')"
    by (simp add: nb)
  then obtain X' where "stamp_units X0 W uf (template_length W uf)
                           (template_mid (template_length W uf)) (trunc x)
                           spike_times spike_labels unit_ids = Inr X'"
    and "Inr (X', g0) = (Inr (X, g') :: py_error + _)"
    by (rule ebind_InrE) (rule that)
  then show ?thesis by (simp add: nb)
qed

text \<open>
  Claim C7. A spike whose window does not lie within \<open>[0, N)\<close> leaves the matrix as
  it is and raises nothing, so the loop over the spikes of a unit computes the same
  result with these spikes removed. When \<^verbatim>\<open>synthesize_timeseries\<close> returns, the result
  has the shape of the noise background and equals it in every column that lies
  outside the windows of all spikes that pass the test.
\<close>

theorem synthesize_timeseries_out_of_bounds_dropped:
  assumes "synthesize_timeseries R spike_times spike_labels unit_ids W sampling_frequency
             duration noise_level waveform_upsamplefac seed g = Inr (X, g')"
    and "py_float_times sampling_frequency duration = Inr x"
    and "N = trunc x" and "T = template_length W waveform_upsamplefac"
    and "Tmid = template_mid T"
    and "X0 = fst (noise_background R (dim_M W) (nat N) noise_level seed g)"
  shows "(\<forall>t0. \<not> spike_in_bounds T Tmid N t0 \<longrightarrow>
            stamp_spike X1 waveform0 TT waveform_upsamplefac T Tmid N t0 = Inr X1)
       \<and> stamp_spikes X1 waveform0 TT waveform_upsamplefac T Tmid N
            (filter (spike_in_bounds T Tmid N) times0)
           = stamp_spikes X1 waveform0 TT waveform_upsamplefac T Tmid N times0
       \<and> length X = length X0
       \<and> (\<forall>m<length X0. length (X ! m) = length (X0 ! m) \<and>
            (\<forall>j<length (X0 ! m).
               (\<forall>t\<in>set spike_times. spike_in_bounds T Tmid N t \<longrightarrow>
                  \<not> (spike_window_start Tmid t \<le> int j
                     \<and> int j < spike_window_start Tmid t + int T))
               \<longrightarrow> X ! m ! j = X0 ! m ! j))"
proof -
  have "stamp_units X0 W waveform_upsamplefac T Tmid N spike_times spike_labels unit_ids = Inr X"
    using synthesize_timeseries_Inr[OF assms(1,2)] unfolding assms(3-6) .
  then have "same_outside (outside_windows T Tmid N spike_times) X0 X"
    by (rule stamp_units_same_outside)
  then have "length X = length X0
       \<and> (\<forall>m<length X0. length (X ! m) = length (X0 ! m) \<and>
            (\<forall>j<length (X0 ! m).
               (\<forall>t\<in>set spike_times. spike_in_bounds T Tmid N t \<longrightarrow>
                  \<not> (spike_window_start Tmid t \<le> int j
                     \<and> int j < spike_window_start Tmid t + int T))
               \<longrightarrow> X ! m ! j = X0 ! m ! j))"
    unfolding same_outside_def outside_windows_def .
  then show ?thesis
    using stamp_spike_out_of_bounds[of T Tmid N _ X1 waveform0 TT waveform_upsamplefac]
      stamp_spikes_dropped[of X1 waveform0 TT waveform_upsamplefac T Tmid N times0]
    by blast
qed

text \<open>
  Claim C7 on six samples: the spike at 3 is stamped on columns 2 and 3, the spike at
  1/5 would start at column -1 and is dropped, and column 0 keeps its noise value.
\<close>

theorem synthesize_timeseries_out_of_bounds_dropped_witness:
  "synthesize_timeseries counter_rng [3, 1 / 5] [1, 1] [0, 1] toy_waveforms 10 (PyFloat (3 / 5))
     10 2 (Some 3) 5 = Inr ([[- 10, - 10, - 9, - 7, - 10, - 10]], 5)
   \<and> \<not> spike_in_bounds 2 1 6 (1 / 5)
   \<and> stamp_spike [[0, 0, 0, 0, 0, 0]] [[1, 2, 3, 4]] 4 2 2 1 6 (1 / 5) = Inr [[0, 0, 0, 0, 0, 0]]
   \<and> [[- 10, - 10, - 9, - 7, - 10, - 10 :: real]] ! 0 ! 0
       = fst (noise_background counter_rng 1 6 10 (Some 3) 5) ! 0 ! 0"
proof -
  have run: "synthesize_timeseries counter_rng [3, 1 / 5] [1, 1] [0, 1] toy_waveforms 10
               (PyFloat (3 / 5)) 10 2 (Some 3) 5 = Inr ([[- 10, - 10, - 9, - 7, - 10, - 10]], 5)"
    by code_simp
  have x: "py_float_times 10 (PyFloat (3 / 5)) = Inr 6" by (simp add: py_float_times_def)
  have N: "(6::int) = trunc 6" by (simp add: trunc_def)
  have T: "(2::nat) = template_length toy_waveforms 2"
    by (simp add: template_length_def toy_waveforms_def)
  have Tmid: "(1::int) = template_mid 2" by code_simp
  have X0: "[[- 10, - 10, - 10, - 10, - 10, - 10]]
              = fst (noise_background counter_rng (dim_M toy_waveforms) (nat 6) 10 (Some 3) 5)"
    by code_simp
  have out: "\<not> spike_in_bounds 2 1 6 (1 / 5)"
    by (simp add: spike_in_bounds_def spike_window_start_def)
  have far: "\<forall>t\<in>set [3, 1 / 5 :: real]. spike_in_bounds 2 1 6 t \<longrightarrow>
               \<not> (spike_window_start 1 t \<le> int 0 \<and> int 0 < spike_window_start 1 t + int 2)"
    by (simp add: spike_in_bounds_def spike_window_start_def)
  have n: "fst (noise_background counter_rng 1 6 10 (Some 3) 5)
             = [[- 10, - 10, - 10, - 10, - 10, - 10]]"
    by code_simp
  from synthesize_timeseries_out_of_bounds_dropped[OF run x N T Tmid X0,
      of "[[0, 0, 0, 0, 0, 0]]" "[[1, 2, 3, 4]]" 4 "[]"]
  have "stamp_spike [[0, 0, 0, 0, 0, 0]] [[1, 2, 3, 4]] 4 2 2 1 6 (1 / 5) = Inr [[0, 0, 0, 0, 0, 0]]"
    and "[[- 10, - 10, - 9, - 7, - 10, - 10 :: real]] ! 0 ! 0
           = [[- 10, - 10, - 10, - 10, - 10, - 10]] ! 0 ! 0"
    using out far by auto
  then show ?thesis using run out n by simp
qed

end
